theory Spec2Isabelle
  imports Main "HOL-Library.Word" "HOL-Library.Sublist"
begin

text \<open>
  The repository is a React front end that runs a pipeline of requests to a hosted
  language model: a News Scout, a Verification agent (in one of the two copies of the
  service module) and a Macro Analyst whose JSON answer is parsed, held by the component
  and shown. This theory embeds the service module, the declared result type and the
  component, over a model of the parts of the ECMAScript library they call
  (\<open>String.prototype.trim\<close>, \<open>JSON.parse\<close>, \<open>JSON.stringify\<close>), and proves the properties
  of the specification about them. The hosted model is a parameter throughout. The API
  key and the exported tool declarations of the service module take no part in any run
  and are left out.
\<close>

section \<open>ECMAScript strings\<close>

text \<open>
  An ECMAScript string is a sequence of 16-bit code units. The string literals of the
  TypeScript sources are ASCII, so \<open>str\<close> turns an Isabelle literal into the code units
  of the same JavaScript literal.
\<close>

type_synonym code_unit = "16 word"
type_synonym jsstring = "code_unit list"

definition str :: "string \<Rightarrow> jsstring" where
  "str s = map of_char s"

text \<open>
  \<open>String.prototype.trim\<close> removes the code units of the productions WhiteSpace and
  LineTerminator from both ends.
\<close>

definition isWhiteSpace :: "code_unit \<Rightarrow> bool" where
  "isWhiteSpace c \<longleftrightarrow>
     c \<in> {0x0009, 0x000A, 0x000B, 0x000C, 0x000D, 0x0020, 0x00A0, 0x1680,
          0x2028, 0x2029, 0x202F, 0x205F, 0x3000, 0xFEFF}
     \<or> (0x2000 \<le> c \<and> c \<le> 0x200A)"

definition trim :: "jsstring \<Rightarrow> jsstring" where
  "trim s = rev (dropWhile isWhiteSpace (rev (dropWhile isWhiteSpace s)))"

fun join :: "'a list \<Rightarrow> 'a list list \<Rightarrow> 'a list" where
  "join sep [] = []"
| "join sep [x] = x"
| "join sep (x # y # ys) = x @ sep @ join sep (y # ys)"

text \<open>A template literal that spans several source lines: the lines joined by U+000A.\<close>

definition template :: "jsstring list \<Rightarrow> jsstring" where
  "template ls = join [0x0A] ls"

section \<open>JSON values, \<open>JSON.parse\<close> and \<open>JSON.stringify\<close>\<close>

text \<open>
  The values \<open>JSON.parse\<close> can return. A number \<open>JNumber m d\<close> stands for the decimal
  \<open>m / 10 ^ d\<close>, kept exact. The engine rounds to a double; the two agree on the
  integers up to \<open>2 ^ 53\<close>, which include the scores of a well-formed result; the
  properties proved below rest on no other number. An object is the list of its own
  properties in the engine's property order.
\<close>

datatype json =
    JNull
  | JBool bool
  | JNumber int nat
  | JString jsstring
  | JArray "json list"
  | JObject "(jsstring \<times> json) list"

text \<open>ToBoolean on these values, as used by \<open>if (analysisResult)\<close> and \<open>result && ...\<close>.\<close>

fun truthy :: "json \<Rightarrow> bool" where
  "truthy JNull = False"
| "truthy (JBool b) = b"
| "truthy (JNumber m d) = (m \<noteq> 0)"
| "truthy (JString s) = (s \<noteq> [])"
| "truthy (JArray es) = True"
| "truthy (JObject ms) = True"

subsection \<open>Numbers\<close>

definition is_digit :: "code_unit \<Rightarrow> bool" where
  "is_digit c \<longleftrightarrow> 0x30 \<le> c \<and> c \<le> 0x39"

definition digit_val :: "code_unit \<Rightarrow> nat" where
  "digit_val c = unat c - 48"

definition digit_char :: "nat \<Rightarrow> code_unit" where
  "digit_char d = of_nat (48 + d)"

fun nat_of_digits :: "nat \<Rightarrow> jsstring \<Rightarrow> nat" where
  "nat_of_digits acc [] = acc"
| "nat_of_digits acc (c # cs) = nat_of_digits (10 * acc + digit_val c) cs"

fun digits_of_nat :: "nat \<Rightarrow> jsstring" where
  "digits_of_nat n =
     (if n < 10 then [digit_char n] else digits_of_nat (n div 10) @ [digit_char (n mod 10)])"

declare digits_of_nat.simps [simp del]

fun strip_zeros :: "nat \<Rightarrow> nat \<Rightarrow> nat \<times> nat" where
  "strip_zeros m 0 = (m, 0)"
| "strip_zeros m (Suc d) = (if m mod 10 = 0 then strip_zeros (m div 10) d else (m, Suc d))"

text \<open>
  The value of a literal with digits \<open>m\<close> (integer and fraction part together), \<open>f\<close>
  fraction digits and exponent \<open>x\<close>, with trailing zeros of the fraction removed.
\<close>

definition decimal :: "bool \<Rightarrow> nat \<Rightarrow> nat \<Rightarrow> int \<Rightarrow> int \<times> nat" where
  "decimal neg m f x =
     (let sgn = (if neg then - 1 else 1 :: int) in
      if int f \<le> x then (sgn * int (m * 10 ^ nat (x - int f)), 0)
      else (case strip_zeros m (nat (int f - x)) of (m', d) \<Rightarrow> (sgn * int m', d)))"

text \<open>
  The JSON number grammar: an optional minus, an integer part without a leading zero,
  an optional fraction, an optional exponent.
\<close>

definition number_literal :: "jsstring \<Rightarrow> (int \<times> nat) option" where
  "number_literal cs =
    (let neg = (cs \<noteq> [] \<and> hd cs = 0x2D);
         cs1 = (if neg then tl cs else cs);
         ip = takeWhile is_digit cs1;
         r1 = dropWhile is_digit cs1;
         has_frac = (r1 \<noteq> [] \<and> hd r1 = 0x2E);
         fp = (if has_frac then takeWhile is_digit (tl r1) else []);
         r2 = (if has_frac then dropWhile is_digit (tl r1) else r1);
         has_exp = (r2 \<noteq> [] \<and> (hd r2 = 0x65 \<or> hd r2 = 0x45));
         r3 = (if has_exp then tl r2 else []);
         eneg = (r3 \<noteq> [] \<and> hd r3 = 0x2D);
         ed = (if r3 \<noteq> [] \<and> (hd r3 = 0x2D \<or> hd r3 = 0x2B) then tl r3 else r3)
     in if ip = [] \<or> (1 < length ip \<and> hd ip = 0x30) \<or> (has_frac \<and> fp = [])
           \<or> (has_exp \<and> (ed = [] \<or> \<not> list_all is_digit ed)) \<or> (\<not> has_exp \<and> r2 \<noteq> [])
        then None
        else Some (decimal neg (nat_of_digits 0 (ip @ fp)) (length fp)
                     (if eneg then - int (nat_of_digits 0 ed) else int (nat_of_digits 0 ed))))"

text \<open>
  Number::toString for the values of the model: an integer prints as its decimal digits,
  a proper decimal with a decimal point. The engine does the same for the doubles that
  are such decimals between \<open>10 ^ (-6)\<close> and \<open>10 ^ 21\<close>, and uses exponent notation
  outside.
\<close>

definition number_string :: "int \<Rightarrow> nat \<Rightarrow> jsstring" where
  "number_string m d =
     (let ds = digits_of_nat (nat \<bar>m\<bar>); n = length ds in
      (if m < 0 then [0x2D] else []) @
      (if d = 0 then ds
       else if d < n then take (n - d) ds @ 0x2E # drop (n - d) ds
       else 0x30 # 0x2E # replicate (d - n) 0x30 @ ds))"

subsection \<open>String literals\<close>

definition hex_char :: "nat \<Rightarrow> code_unit" where
  "hex_char d = (if d < 10 then of_nat (48 + d) else of_nat (87 + d))"

definition hex_val :: "code_unit \<Rightarrow> nat option" where
  "hex_val c =
     (if 0x30 \<le> c \<and> c \<le> 0x39 then Some (unat c - 48)
      else if 0x61 \<le> c \<and> c \<le> 0x66 then Some (unat c - 87)
      else if 0x41 \<le> c \<and> c \<le> 0x46 then Some (unat c - 55)
      else None)"

definition hex4 :: "code_unit \<Rightarrow> jsstring" where
  "hex4 c = (let n = unat c in
     [hex_char (n div 4096), hex_char (n div 256 mod 16), hex_char (n div 16 mod 16),
      hex_char (n mod 16)])"

definition unhex4 :: "jsstring \<Rightarrow> code_unit option" where
  "unhex4 cs =
     (case map hex_val cs of
        [Some a, Some b, Some c, Some d] \<Rightarrow> Some (of_nat (((a * 16 + b) * 16 + c) * 16 + d))
      | _ \<Rightarrow> None)"

definition is_high_surrogate :: "code_unit \<Rightarrow> bool" where
  "is_high_surrogate c \<longleftrightarrow> 0xD800 \<le> c \<and> c \<le> 0xDBFF"

definition is_low_surrogate :: "code_unit \<Rightarrow> bool" where
  "is_low_surrogate c \<longleftrightarrow> 0xDC00 \<le> c \<and> c \<le> 0xDFFF"

text \<open>
  QuoteJSONString: the two-character escapes, \<open>\uXXXX\<close> (lower-case hexadecimal) for the
  other control characters and for a surrogate that is not part of a pair, and every
  other code unit as it is.
\<close>

definition quote_unit :: "code_unit \<Rightarrow> jsstring" where
  "quote_unit c =
     (if c = 0x08 then [0x5C, 0x62]
      else if c = 0x09 then [0x5C, 0x74]
      else if c = 0x0A then [0x5C, 0x6E]
      else if c = 0x0C then [0x5C, 0x66]
      else if c = 0x0D then [0x5C, 0x72]
      else if c = 0x22 then [0x5C, 0x22]
      else if c = 0x5C then [0x5C, 0x5C]
      else if c < 0x20 \<or> is_high_surrogate c \<or> is_low_surrogate c then 0x5C # 0x75 # hex4 c
      else [c])"

fun quote_body :: "jsstring \<Rightarrow> jsstring" where
  "quote_body [] = []"
| "quote_body [c] = quote_unit c"
| "quote_body (c # d # cs) =
     (if is_high_surrogate c \<and> is_low_surrogate d then c # d # quote_body cs
      else quote_unit c @ quote_body (d # cs))"

definition QuoteJSONString :: "jsstring \<Rightarrow> jsstring" where
  "QuoteJSONString s = 0x22 # quote_body s @ [0x22]"

definition unescape :: "code_unit \<Rightarrow> code_unit option" where
  "unescape e =
     (if e = 0x22 then Some 0x22
      else if e = 0x5C then Some 0x5C
      else if e = 0x2F then Some 0x2F
      else if e = 0x62 then Some 0x08
      else if e = 0x66 then Some 0x0C
      else if e = 0x6E then Some 0x0A
      else if e = 0x72 then Some 0x0D
      else if e = 0x74 then Some 0x09
      else None)"

subsection \<open>Tokens\<close>

datatype token =
    LBracket | RBracket | LBrace | RBrace | Comma | Colon
  | TNull | TTrue | TFalse
  | TNumber int nat
  | TString jsstring

definition punct :: "code_unit \<Rightarrow> token option" where
  "punct c =
     (if c = 0x5B then Some LBracket
      else if c = 0x5D then Some RBracket
      else if c = 0x7B then Some LBrace
      else if c = 0x7D then Some RBrace
      else if c = 0x2C then Some Comma
      else if c = 0x3A then Some Colon
      else None)"

definition is_json_ws :: "code_unit \<Rightarrow> bool" where
  "is_json_ws c \<longleftrightarrow> c = 0x09 \<or> c = 0x0A \<or> c = 0x0D \<or> c = 0x20"

definition is_number_char :: "code_unit \<Rightarrow> bool" where
  "is_number_char c \<longleftrightarrow>
     is_digit c \<or> c = 0x2B \<or> c = 0x2D \<or> c = 0x2E \<or> c = 0x65 \<or> c = 0x45"

definition emit :: "token \<Rightarrow> token list option \<Rightarrow> token list option" where
  "emit t r = map_option ((#) t) r"

definition number_token :: "jsstring \<Rightarrow> token option" where
  "number_token cs = map_option (\<lambda>(m, d). TNumber m d) (number_literal cs)"

text \<open>
  The lexer. \<open>None\<close> is the SyntaxError of \<open>JSON.parse\<close>. A number ends at white space,
  at a punctuation character or at the end of the text; anything else straight after a
  number is no JSON text.
\<close>

fun lex :: "jsstring \<Rightarrow> token list option"
  and lex_string :: "jsstring \<Rightarrow> jsstring \<Rightarrow> token list option"
  and lex_number :: "jsstring \<Rightarrow> jsstring \<Rightarrow> token list option"
where
  "lex [] = Some []"
| "lex (c # cs) =
     (if is_json_ws c then lex cs
      else if punct c \<noteq> None then emit (the (punct c)) (lex cs)
      else if c = 0x22 then lex_string [] cs
      else if c = 0x2D \<or> is_digit c then lex_number [c] cs
      else if take 4 (c # cs) = str ''true'' then emit TTrue (lex (drop 3 cs))
      else if take 5 (c # cs) = str ''false'' then emit TFalse (lex (drop 4 cs))
      else if take 4 (c # cs) = str ''null'' then emit TNull (lex (drop 3 cs))
      else None)"
| "lex_string acc [] = None"
| "lex_string acc (c # cs) =
     (if c = 0x22 then emit (TString (rev acc)) (lex cs)
      else if c = 0x5C then
        (case cs of
           [] \<Rightarrow> None
         | e # cs' \<Rightarrow>
             if e = 0x75 then
               (case unhex4 (take 4 cs') of
                  None \<Rightarrow> None
                | Some u \<Rightarrow> lex_string (u # acc) (drop 4 cs'))
             else
               (case unescape e of
                  None \<Rightarrow> None
                | Some u \<Rightarrow> lex_string (u # acc) cs'))
      else if c < 0x20 then None
      else lex_string (c # acc) cs)"
| "lex_number acc [] =
     (case number_token (rev acc) of None \<Rightarrow> None | Some t \<Rightarrow> Some [t])"
| "lex_number acc (c # cs) =
     (if is_number_char c then lex_number (c # acc) cs
      else
        (case number_token (rev acc) of
           None \<Rightarrow> None
         | Some t \<Rightarrow>
             if is_json_ws c then emit t (lex cs)
             else if punct c \<noteq> None then emit t (emit (the (punct c)) (lex cs))
             else None))"

subsection \<open>Objects\<close>

text \<open>
  \<open>JSON.parse\<close> defines each member with CreateDataProperty: a key that is already
  there keeps its place and takes the new value; a new array index (the canonical decimal
  of a number below \<open>2 ^ 32 - 1\<close>) goes among the array indices in ascending order, which
  come first; any other new key goes last.
\<close>

definition is_array_index :: "jsstring \<Rightarrow> bool" where
  "is_array_index k \<longleftrightarrow>
     k \<noteq> [] \<and> list_all is_digit k \<and> digits_of_nat (nat_of_digits 0 k) = k
       \<and> nat_of_digits 0 k < 4294967295"

fun insert_index ::
  "jsstring \<Rightarrow> json \<Rightarrow> (jsstring \<times> json) list \<Rightarrow> (jsstring \<times> json) list" where
  "insert_index k v [] = [(k, v)]"
| "insert_index k v ((k', v') # ms) =
     (if is_array_index k' \<and> nat_of_digits 0 k' < nat_of_digits 0 k
      then (k', v') # insert_index k v ms
      else (k, v) # (k', v') # ms)"

definition CreateDataProperty ::
  "jsstring \<Rightarrow> json \<Rightarrow> (jsstring \<times> json) list \<Rightarrow> (jsstring \<times> json) list" where
  "CreateDataProperty k v ms =
     (if k \<in> fst ` set ms then map (\<lambda>(k', v'). if k' = k then (k', v) else (k', v')) ms
      else if is_array_index k then insert_index k v ms
      else ms @ [(k, v)])"

subsection \<open>Parser\<close>

text \<open>
  The parser runs over the tokens with a stack of the arrays and objects that are still
  open. Each state says what the grammar allows next.
\<close>

datatype frame = FArr "json list" | FObj "(jsstring \<times> json) list" jsstring

datatype pstate =
    SValue "frame list"
  | SArrStart "frame list"
  | SAfterElem "json list" "frame list"
  | SObjStart "frame list"
  | SKey "(jsstring \<times> json) list" "frame list"
  | SColon "(jsstring \<times> json) list" jsstring "frame list"
  | SAfterMember "(jsstring \<times> json) list" "frame list"
  | SDone json

fun deliver :: "json \<Rightarrow> frame list \<Rightarrow> pstate" where
  "deliver v [] = SDone v"
| "deliver v (FArr es # stk) = SAfterElem (es @ [v]) stk"
| "deliver v (FObj ms k # stk) = SAfterMember (CreateDataProperty k v ms) stk"

fun start_value :: "token \<Rightarrow> frame list \<Rightarrow> pstate option" where
  "start_value TNull stk = Some (deliver JNull stk)"
| "start_value TTrue stk = Some (deliver (JBool True) stk)"
| "start_value TFalse stk = Some (deliver (JBool False) stk)"
| "start_value (TNumber m d) stk = Some (deliver (JNumber m d) stk)"
| "start_value (TString s) stk = Some (deliver (JString s) stk)"
| "start_value LBracket stk = Some (SArrStart stk)"
| "start_value LBrace stk = Some (SObjStart stk)"
| "start_value _ stk = None"

fun pstep :: "pstate \<Rightarrow> token \<Rightarrow> pstate option" where
  "pstep (SValue stk) t = start_value t stk"
| "pstep (SArrStart stk) t =
     (if t = RBracket then Some (deliver (JArray []) stk) else start_value t (FArr [] # stk))"
| "pstep (SAfterElem es stk) t =
     (if t = Comma then Some (SValue (FArr es # stk))
      else if t = RBracket then Some (deliver (JArray es) stk)
      else None)"
| "pstep (SObjStart stk) t =
     (case t of RBrace \<Rightarrow> Some (deliver (JObject []) stk)
              | TString k \<Rightarrow> Some (SColon [] k stk)
              | _ \<Rightarrow> None)"
| "pstep (SKey ms stk) t =
     (case t of TString k \<Rightarrow> Some (SColon ms k stk) | _ \<Rightarrow> None)"
| "pstep (SColon ms k stk) t =
     (if t = Colon then Some (SValue (FObj ms k # stk)) else None)"
| "pstep (SAfterMember ms stk) t =
     (if t = Comma then Some (SKey ms stk)
      else if t = RBrace then Some (deliver (JObject ms) stk)
      else None)"
| "pstep (SDone v) t = None"

fun prun :: "token list \<Rightarrow> pstate \<Rightarrow> pstate option" where
  "prun [] s = Some s"
| "prun (t # ts) s = (case pstep s t of None \<Rightarrow> None | Some s' \<Rightarrow> prun ts s')"

text \<open>\<open>JSON.parse(text)\<close> without a reviver; \<open>None\<close> is the SyntaxError it throws.\<close>

definition JSON_parse :: "jsstring \<Rightarrow> json option" where
  "JSON_parse text =
     (case lex text of
        None \<Rightarrow> None
      | Some ts \<Rightarrow> (case prun ts (SValue []) of Some (SDone v) \<Rightarrow> Some v | _ \<Rightarrow> None))"

subsection \<open>Printer\<close>

definition newline_indent :: "nat \<Rightarrow> jsstring" where
  "newline_indent n = 0x0A # replicate n 0x20"

text \<open>
  SerializeJSONProperty with a gap of \<open>gap\<close> spaces (\<open>1 \<le> gap\<close>) at the indentation
  \<open>ind\<close>: an empty array or object prints closed on the spot, any other one with each
  element on a line of its own.
\<close>

fun SerializeJSONProperty :: "nat \<Rightarrow> nat \<Rightarrow> json \<Rightarrow> jsstring" where
  "SerializeJSONProperty gap ind JNull = str ''null''"
| "SerializeJSONProperty gap ind (JBool b) = (if b then str ''true'' else str ''false'')"
| "SerializeJSONProperty gap ind (JNumber m d) = number_string m d"
| "SerializeJSONProperty gap ind (JString s) = QuoteJSONString s"
| "SerializeJSONProperty gap ind (JArray es) =
     (if es = [] then str ''[]''
      else 0x5B # newline_indent (ind + gap)
           @ join (0x2C # newline_indent (ind + gap))
               (map (SerializeJSONProperty gap (ind + gap)) es)
           @ newline_indent ind @ [0x5D])"
| "SerializeJSONProperty gap ind (JObject ms) =
     (if ms = [] then str ''{}''
      else 0x7B # newline_indent (ind + gap)
           @ join (0x2C # newline_indent (ind + gap))
               (map (\<lambda>(k, v). QuoteJSONString k @ 0x3A # 0x20
                                # SerializeJSONProperty gap (ind + gap) v) ms)
           @ newline_indent ind @ [0x7D])"

text \<open>\<open>JSON.stringify(value, null, gap)\<close> for a number \<open>gap\<close> between 1 and 10.\<close>

definition JSON_stringify :: "json \<Rightarrow> nat \<Rightarrow> jsstring" where
  "JSON_stringify v gap = SerializeJSONProperty gap 0 v"

section \<open>The service module (services/geminiService.ts)\<close>

subsection \<open>Thrown values, requests and the hosted model\<close>

text \<open>
  A thrown value is an \<open>Error\<close> object with its message (\<open>instanceof Error\<close> holds), or
  any other value. \<open>SyntaxError\<close> and \<open>TypeError\<close> are the errors the engine throws from
  \<open>JSON.parse\<close> and from reading \<open>trim\<close> of \<open>undefined\<close>; their message text is the
  engine's own and reaches \<open>console.error\<close> only.
\<close>

datatype exn = Error jsstring | NonError jsstring

definition SyntaxError :: exn where
  "SyntaxError = Error (str ''SyntaxError: JSON.parse'')"

definition TypeError :: exn where
  "TypeError = Error (str ''TypeError: response.text is undefined'')"

datatype schema =
    STRING "jsstring option"
  | INTEGER "jsstring option"
  | ARRAY "jsstring option" schema
  | OBJECT "(jsstring \<times> schema) list" "jsstring list"

record request =
  model :: jsstring
  contents :: jsstring
  systemInstruction :: jsstring
  googleSearch :: bool
  responseMimeType :: "jsstring option"
  responseSchema :: "schema option"

text \<open>
  The promise of \<open>ai.models.generateContent\<close> rejects with a thrown value, or resolves
  with a response whose \<open>text\<close> is a string or \<open>undefined\<close>; a rejection also stands
  for anything else that throws in a \<open>try\<close> block before the text has been read. The
  hosted model is a parameter of every function below: \<open>api n req\<close> is what the call
  number \<open>n\<close> gets for the request \<open>req\<close>.
\<close>

datatype outcome = Rejected exn | Resolved "jsstring option"

type_synonym model_api = "nat \<Rightarrow> request \<Rightarrow> outcome"

text \<open>
  What a run does besides returning: the status messages handed to the callback, the
  requests sent to the model and the lines written with \<open>console.error\<close>, in order.
  \<open>client\<close> is the state of the caller, which only the callback touches.
\<close>

datatype event =
    SetStatus jsstring
  | GenerateContent request
  | ConsoleError jsstring exn

record 'u state =
  calls :: nat
  trace :: "event list"
  client :: 'u

type_synonym ('a, 'u) action = "'u state \<Rightarrow> (exn + 'a) \<times> 'u state"

definition returnE :: "'a \<Rightarrow> ('a, 'u) action" where
  "returnE a s = (Inr a, s)"

definition throwE :: "exn \<Rightarrow> ('a, 'u) action" where
  "throwE e s = (Inl e, s)"

definition bindE :: "('a, 'u) action \<Rightarrow> ('a \<Rightarrow> ('b, 'u) action) \<Rightarrow> ('b, 'u) action" where
  "bindE m f s = (case m s of (Inl e, s') \<Rightarrow> (Inl e, s') | (Inr a, s') \<Rightarrow> f a s')"

definition try_catch :: "('a, 'u) action \<Rightarrow> (exn \<Rightarrow> ('a, 'u) action) \<Rightarrow> ('a, 'u) action" where
  "try_catch m h s = (case m s of (Inl e, s') \<Rightarrow> h e s' | (Inr a, s') \<Rightarrow> (Inr a, s'))"

definition console_error :: "jsstring \<Rightarrow> exn \<Rightarrow> (unit, 'u) action" where
  "console_error label e s = (Inr (), s\<lparr>trace := trace s @ [ConsoleError label e]\<rparr>)"

definition generateContent :: "model_api \<Rightarrow> request \<Rightarrow> (jsstring option, 'u) action" where
  "generateContent api req s =
     (let s' = s\<lparr>calls := Suc (calls s), trace := trace s @ [GenerateContent req]\<rparr> in
      case api (calls s) req of
        Rejected e \<Rightarrow> (Inl e, s')
      | Resolved text \<Rightarrow> (Inr text, s'))"

text \<open>
  The status callback is the caller's: it is given the message, may change the caller's
  state and may throw.
\<close>

type_synonym 'u callback = "jsstring \<Rightarrow> 'u \<Rightarrow> exn option \<times> 'u"

definition invoke :: "'u callback \<Rightarrow> jsstring \<Rightarrow> (unit, 'u) action" where
  "invoke setStatus message s =
     (case setStatus message (client s) of
        (thrown, u') \<Rightarrow>
          ((case thrown of None \<Rightarrow> Inr () | Some e \<Rightarrow> Inl e),
           s\<lparr>trace := trace s @ [SetStatus message], client := u'\<rparr>))"

subsection \<open>The response schema\<close>

definition MACRO_ANALYSIS_SCHEMA :: schema where
  "MACRO_ANALYSIS_SCHEMA =
     OBJECT
       [(str ''macro_analysis'',
         ARRAY (Some (str ''An array of macro-economic analyses for each of the top 5 news items from the last 48 hours.''))
           (OBJECT
              [(str ''news_summary'',
                STRING (Some (str ''A concise summary of the financial news item.''))),
               (str ''importance_score'',
                INTEGER (Some (str ''A score from 1 to 10 indicating the importance of the news item based on its potential global market impact (10 being most important).''))),
               (str ''identified_macro_factors'',
                ARRAY (Some (str ''A list of key macro-economic factors identified in the news (e.g., inflation, interest rates, GDP growth, unemployment).''))
                  (STRING None)),
               (str ''impact_analysis'',
                STRING (Some (str ''A detailed analysis of the potential impact of the news on the economy, markets, and specific sectors.'')))]
              [str ''news_summary'', str ''importance_score'', str ''identified_macro_factors'',
               str ''impact_analysis'']))]
       [str ''macro_analysis'']"

text \<open>The schema of the second copy of the module, which has no \<open>importance_score\<close>.\<close>

definition MACRO_ANALYSIS_SCHEMA_2 :: schema where
  "MACRO_ANALYSIS_SCHEMA_2 =
     OBJECT
       [(str ''macro_analysis'',
         ARRAY (Some (str ''An array of macro-economic analyses for each of the top 5 news items from the last 48 hours.''))
           (OBJECT
              [(str ''news_summary'',
                STRING (Some (str ''A concise summary of the financial news item.''))),
               (str ''identified_macro_factors'',
                ARRAY (Some (str ''A list of key macro-economic factors identified in the news (e.g., inflation, interest rates, GDP growth, unemployment).''))
                  (STRING None)),
               (str ''impact_analysis'',
                STRING (Some (str ''A detailed analysis of the potential impact of the news on the economy, markets, and specific sectors.'')))]
              [str ''news_summary'', str ''identified_macro_factors'', str ''impact_analysis'']))]
       [str ''macro_analysis'']"

subsection \<open>Agent 1: News Scout\<close>

definition news_scout_request :: request where
  "news_scout_request =
     \<lparr>model = str ''gemini-2.5-flash'',
      contents = template
        [[],
         str ''    Find the top 5 most significant and verified financial news items from the past 48 hours.'',
         str ''    Rank them by relevance and impact on global markets.'',
         str ''    You MUST prioritize reputable sources: Bloomberg, Reuters, Financial Times (FT), and Wall Street Journal (WSJ).'',
         str ''    For each news item you find, you MUST perform a second, verification search to confirm its authenticity and key details.'',
         str ''    List the 5 verified news items clearly in ranked order. For each item, provide a brief summary and the primary source.'',
         str ''  ''],
      systemInstruction = str ''You are a 'News Scout' agent. Your sole purpose is to find and verify important financial news from trusted sources using your search tool.'',
      googleSearch = True,
      responseMimeType = None,
      responseSchema = None\<rparr>"

text \<open>
  \<open>runNewsScoutAgent\<close> returns \<open>response.text\<close> as it is (\<open>None\<close> is \<open>undefined\<close>); whatever
  the call throws is logged and replaced by the agent's own error.
\<close>

definition runNewsScoutAgent :: "model_api \<Rightarrow> (jsstring option, 'u) action" where
  "runNewsScoutAgent api =
     try_catch
       (bindE (generateContent api news_scout_request) (\<lambda>text. returnE text))
       (\<lambda>error.
          bindE (console_error (str ''Agent 1 (News Scout) failed:'') error) (\<lambda>_.
          throwE (Error (str ''News Scout agent failed to retrieve news.''))))"

subsection \<open>Agent 1.5: Verification\<close>

definition verification_request :: "jsstring \<Rightarrow> request" where
  "verification_request unverifiedNewsText =
     \<lparr>model = str ''gemini-2.5-flash'',
      contents = template
        [[],
         str ''        You are a meticulous fact-checker. Your task is to verify the following news items provided by another agent.'',
         str ''        You MUST use your search tool to:'',
         str ''        1. Confirm that each news story is real and not fabricated.'',
         str ''        2. Verify that the core details in the summary are accurate by cross-referencing with other reputable sources.'',
         str ''        3. CRITICAL: Check the publication date of each original article and ensure it is within the last 48 hours.'',
         str ''        '',
         str ''        If any story is fake, inaccurate, or older than 48 hours, you MUST explain which one and why, and then stop execution. Your response should clearly state the error.'',
         str ''        '',
         str ''        If all news items are verified and recent, return the original text EXACTLY as it was given to you without any modification.'',
         str ''        '',
         str ''        News to verify:'',
         str ''        ---'',
         str ''        '' @ unverifiedNewsText,
         str ''        ---'',
         str ''    ''],
      systemInstruction = str ''You are a 'Verification' agent. Your sole purpose is to fact-check and verify the age of financial news provided to you. If verification fails, you must explain why.'',
      googleSearch = True,
      responseMimeType = None,
      responseSchema = None\<rparr>"

text \<open>
  \<open>runVerificationAgent\<close> awaits the response and does not read it: once the call has
  resolved it returns its argument.
\<close>

definition runVerificationAgent :: "model_api \<Rightarrow> jsstring \<Rightarrow> (jsstring, 'u) action" where
  "runVerificationAgent api unverifiedNewsText =
     try_catch
       (bindE (generateContent api (verification_request unverifiedNewsText)) (\<lambda>response.
        returnE unverifiedNewsText))
       (\<lambda>error.
          bindE (console_error (str ''Agent 1.5 (Verification) failed:'') error) (\<lambda>_.
          throwE (Error (str ''Verification agent failed. It may have found fake, inaccurate, or old news.''))))"

subsection \<open>Agent 2: Macro Analyst\<close>

definition macro_analyst_request :: "jsstring \<Rightarrow> request" where
  "macro_analyst_request newsItemsText =
     \<lparr>model = str ''gemini-2.5-flash'',
      contents = template
        [[],
         str ''    Analyze the following verified financial news items.'',
         str ''    For each item, provide a detailed macro-economic analysis.'',
         str ''    Crucially, for each item, you MUST include an 'importance_score' from 1 to 10 (10 being most important) based on its potential global market impact.'',
         str ''    News Items:'',
         str ''    ---'',
         str ''    '' @ newsItemsText,
         str ''    ---'',
         str ''  ''],
      systemInstruction = str ''You are a 'Senior Macro Research Analyst'. Your task is to analyze financial news and output a structured JSON analysis based on the provided schema, including an importance score.'',
      googleSearch = False,
      responseMimeType = Some (str ''application/json''),
      responseSchema = Some MACRO_ANALYSIS_SCHEMA\<rparr>"

definition macro_analyst_request_2 :: "jsstring \<Rightarrow> request" where
  "macro_analyst_request_2 newsItemsText =
     \<lparr>model = str ''gemini-2.5-flash'',
      contents = template
        [[],
         str ''    Analyze the following financial news items provided by the News Scout.'',
         str ''    For each item, provide a detailed macro-economic analysis.'',
         str ''    News Items:'',
         str ''    ---'',
         str ''    '' @ newsItemsText,
         str ''    ---'',
         str ''  ''],
      systemInstruction = str ''You are a 'Senior Macro Research Analyst'. Your task is to analyze financial news and output a structured JSON analysis based on the provided schema.'',
      googleSearch = False,
      responseMimeType = Some (str ''application/json''),
      responseSchema = Some MACRO_ANALYSIS_SCHEMA_2\<rparr>"

text \<open>
  The body of \<open>runMacroAnalystAgent\<close> after the request: \<open>response.text.trim()\<close>, the
  check for an empty text and \<open>JSON.parse\<close>, all inside the \<open>try\<close> block; the \<open>catch\<close>
  block logs what was thrown and throws the agent's own error. The two copies of the
  module differ in the request only.
\<close>

definition macro_analyst_agent :: "model_api \<Rightarrow> request \<Rightarrow> (json, 'u) action" where
  "macro_analyst_agent api req =
     try_catch
       (bindE (generateContent api req) (\<lambda>text.
        case text of
          None \<Rightarrow> throwE TypeError
        | Some t \<Rightarrow>
            (let resultJson = trim t in
             if resultJson = [] then throwE (Error (str ''Macro Analyst returned an empty response.''))
             else (case JSON_parse resultJson of
                     None \<Rightarrow> throwE SyntaxError
                   | Some v \<Rightarrow> returnE v))))
       (\<lambda>error.
          bindE (console_error (str ''Agent 2 (Macro Analyst) failed:'') error) (\<lambda>_.
          throwE (Error (str ''Macro Analyst agent failed to generate analysis. The model may have returned invalid JSON.''))))"

definition runMacroAnalystAgent :: "model_api \<Rightarrow> jsstring \<Rightarrow> (json, 'u) action" where
  "runMacroAnalystAgent api newsItemsText =
     macro_analyst_agent api (macro_analyst_request newsItemsText)"

definition runMacroAnalystAgent_2 :: "model_api \<Rightarrow> jsstring \<Rightarrow> (json, 'u) action" where
  "runMacroAnalystAgent_2 api newsItemsText =
     macro_analyst_agent api (macro_analyst_request_2 newsItemsText)"

subsection \<open>The orchestrator\<close>

text \<open>
  \<open>!newsText || newsText.trim() === ""\<close>: true for \<open>undefined\<close>, for the empty string and
  for a string of white space.
\<close>

definition no_content :: "jsstring option \<Rightarrow> bool" where
  "no_content newsText \<longleftrightarrow>
     (case newsText of None \<Rightarrow> True | Some t \<Rightarrow> t = [] \<or> trim t = [])"

text \<open>The \<open>catch\<close> block of the orchestrator, the same in both copies.\<close>

definition orchestrator_catch :: "exn \<Rightarrow> (json, 'u) action" where
  "orchestrator_catch error =
     bindE (console_error (str ''Orchestrator failed:'') error) (\<lambda>_.
     case error of
       Error message \<Rightarrow> throwE (Error message)
     | NonError v \<Rightarrow> throwE (Error (str ''An unknown error occurred during orchestration.'')))"

definition runAnalysisOrchestrator :: "model_api \<Rightarrow> 'u callback \<Rightarrow> (json, 'u) action" where
  "runAnalysisOrchestrator api setStatus =
     try_catch
       (bindE (invoke setStatus (str ''Orchestrator: Calling News Scout Agent...'')) (\<lambda>_.
        bindE (runNewsScoutAgent api) (\<lambda>newsText.
        if no_content newsText then throwE (Error (str ''News Scout returned no content.''))
        else
        bindE (invoke setStatus (str ''Orchestrator: Calling Verification Agent...'')) (\<lambda>_.
        bindE (runVerificationAgent api (the newsText)) (\<lambda>verifiedNewsText.
        bindE (invoke setStatus (str ''Orchestrator: Calling Macro Analyst Agent...'')) (\<lambda>_.
        bindE (runMacroAnalystAgent api verifiedNewsText) (\<lambda>analysisResult.
        returnE analysisResult)))))))
       orchestrator_catch"

text \<open>The orchestrator of the second copy of the module, without the Verification agent.\<close>

definition runAnalysisOrchestrator_2 :: "model_api \<Rightarrow> 'u callback \<Rightarrow> (json, 'u) action" where
  "runAnalysisOrchestrator_2 api setStatus =
     try_catch
       (bindE (invoke setStatus (str ''Orchestrator: Calling News Scout Agent...'')) (\<lambda>_.
        bindE (runNewsScoutAgent api) (\<lambda>newsText.
        if no_content newsText then throwE (Error (str ''News Scout returned no content.''))
        else
        bindE (invoke setStatus (str ''Orchestrator: Calling Macro Analyst Agent...'')) (\<lambda>_.
        bindE (runMacroAnalystAgent_2 api (the newsText)) (\<lambda>analysisResult.
        returnE analysisResult)))))
       orchestrator_catch"

section \<open>The declared result type (types.ts)\<close>

text \<open>
  \<open>MacroAnalysisItem\<close> and \<open>MacroAnalysisResult\<close> as predicates on the values that
  \<open>JSON.parse\<close> returns. The two copies of types.ts differ in \<open>importance_score\<close>, so a
  well-formed item may have it or not; where it is there it is the integer from 1 to 10
  that the schema asks for.
\<close>

fun is_string :: "json \<Rightarrow> bool" where
  "is_string (JString s) = True"
| "is_string _ = False"

fun is_string_array :: "json \<Rightarrow> bool" where
  "is_string_array (JArray es) = list_all is_string es"
| "is_string_array _ = False"

fun is_score :: "json \<Rightarrow> bool" where
  "is_score (JNumber m d) = (d = 0 \<and> 1 \<le> m \<and> m \<le> 10)"
| "is_score _ = False"

definition item_field_ok :: "jsstring \<times> json \<Rightarrow> bool" where
  "item_field_ok kv =
     (if fst kv = str ''news_summary'' then is_string (snd kv)
      else if fst kv = str ''importance_score'' then is_score (snd kv)
      else if fst kv = str ''identified_macro_factors'' then is_string_array (snd kv)
      else if fst kv = str ''impact_analysis'' then is_string (snd kv)
      else False)"

fun is_MacroAnalysisItem :: "json \<Rightarrow> bool" where
  "is_MacroAnalysisItem (JObject ms) =
     (distinct (map fst ms) \<and> list_all item_field_ok ms
      \<and> str ''news_summary'' \<in> set (map fst ms)
      \<and> str ''identified_macro_factors'' \<in> set (map fst ms)
      \<and> str ''impact_analysis'' \<in> set (map fst ms))"
| "is_MacroAnalysisItem _ = False"

fun macro_analysis_items :: "json \<Rightarrow> json list option" where
  "macro_analysis_items (JObject [(k, JArray items)]) =
     (if k = str ''macro_analysis'' then Some items else None)"
| "macro_analysis_items _ = None"

definition is_MacroAnalysisResult :: "json \<Rightarrow> bool" where
  "is_MacroAnalysisResult v \<longleftrightarrow>
     (case macro_analysis_items v of
        None \<Rightarrow> False
      | Some items \<Rightarrow> list_all is_MacroAnalysisItem items)"

section \<open>The component (App.tsx, ResultDisplay.tsx, ErrorAlert.tsx)\<close>

text \<open>The four \<open>useState\<close> cells of \<open>App\<close>; \<open>None\<close> is \<open>null\<close>.\<close>

record app =
  isLoading :: bool
  statusMessage :: jsstring
  result :: "json option"
  error :: "jsstring option"

definition initial_app :: app where
  "initial_app =
     \<lparr>isLoading = True, statusMessage = str ''Initiating analysis...'', result = None,
      error = None\<rparr>"

definition setStatusMessage :: "app callback" where
  "setStatusMessage message u = (None, u\<lparr>statusMessage := message\<rparr>)"

text \<open>
  \<open>handleRunAnalysis\<close> up to its \<open>await\<close>. \<open>captured\<close> is the \<open>isLoading\<close> of the render
  whose closure is running.
\<close>

definition handleRunAnalysis_begin :: "bool \<Rightarrow> app \<Rightarrow> app" where
  "handleRunAnalysis_begin captured u =
     (if \<not> captured then u\<lparr>isLoading := True\<rparr> else u)\<lparr>result := None, error := None\<rparr>"

text \<open>
  \<open>handleRunAnalysis\<close> from the point where the promise of the orchestrator has settled:
  the rest of the \<open>try\<close> block or the \<open>catch\<close> block, and then \<open>finally\<close>.
\<close>

definition handleRunAnalysis_settle :: "exn + json \<Rightarrow> app \<Rightarrow> app" where
  "handleRunAnalysis_settle r u =
     (case r of
        Inr analysisResult \<Rightarrow>
          if truthy analysisResult
          then u\<lparr>result := Some analysisResult, statusMessage := str ''Analysis complete.''\<rparr>
          else u\<lparr>error := Some (str ''The analysis could not be completed.''),
                 statusMessage := str ''Analysis failed.''\<rparr>
      | Inl e \<Rightarrow>
          u\<lparr>error := Some (str ''An error occurred: ''
                            @ (case e of Error message \<Rightarrow> message
                                       | NonError v \<Rightarrow> str ''An unknown error occurred.'')),
            statusMessage := str ''Analysis failed.''\<rparr>)
     \<lparr>isLoading := False\<rparr>"

text \<open>One whole run of \<open>handleRunAnalysis\<close> with the orchestrator of the first copy.\<close>

definition handleRunAnalysis :: "model_api \<Rightarrow> bool \<Rightarrow> app state \<Rightarrow> app state" where
  "handleRunAnalysis api captured s =
     (case runAnalysisOrchestrator api setStatusMessage
             (s\<lparr>client := handleRunAnalysis_begin captured (client s)\<rparr>) of
        (r, s') \<Rightarrow> s'\<lparr>client := handleRunAnalysis_settle r (client s')\<rparr>)"

text \<open>
  What \<open>App\<close> renders: the trigger button, the spinner with the status message, the
  alert of \<open>ErrorAlert\<close>, the text of \<open>ResultDisplay\<close> with the download button, and
  the placeholder shown when there is nothing else.
\<close>

record view =
  button_disabled :: bool
  button_label :: jsstring
  spinner :: "jsstring option"
  alert :: "jsstring option"
  result_display :: "jsstring option"
  download_button :: bool
  placeholder :: bool

definition ErrorAlert :: "jsstring option \<Rightarrow> jsstring option" where
  "ErrorAlert e = (case e of None \<Rightarrow> None | Some m \<Rightarrow> if m = [] then None else Some m)"

definition ResultDisplay :: "json \<Rightarrow> jsstring" where
  "ResultDisplay r = JSON_stringify r 2"

definition shows_result :: "app \<Rightarrow> bool" where
  "shows_result u \<longleftrightarrow> (case result u of None \<Rightarrow> False | Some r \<Rightarrow> truthy r) \<and> \<not> isLoading u"

definition App :: "app \<Rightarrow> view" where
  "App u =
     \<lparr>button_disabled = isLoading u,
      button_label =
        (if isLoading u then str ''Analyzing...''
         else if ErrorAlert (error u) \<noteq> None then str ''Try Again''
         else str ''Re-run Analysis''),
      spinner = (if isLoading u then Some (statusMessage u) else None),
      alert = ErrorAlert (error u),
      result_display = (if shows_result u then Some (ResultDisplay (the (result u))) else None),
      download_button = shows_result u,
      placeholder = (\<not> isLoading u \<and> (case result u of None \<Rightarrow> True | Some r \<Rightarrow> \<not> truthy r)
                     \<and> ErrorAlert (error u) = None)\<rparr>"

record download =
  filename :: jsstring
  mime_type :: jsstring
  content :: jsstring

definition handleDownloadJson :: "app \<Rightarrow> download option" where
  "handleDownloadJson u =
     (case result u of
        None \<Rightarrow> None
      | Some r \<Rightarrow>
          if \<not> truthy r then None
          else Some \<lparr>filename = str ''financial_analysis_output.json'',
                     mime_type = str ''application/json'',
                     content = JSON_stringify r 2\<rparr>)"

subsection \<open>The component over time\<close>

text \<open>
  What can happen to the mounted component. \<open>component\<close> holds the four state cells with
  every update applied; \<open>rendered\<close> holds them as the last committed render saw them: the
  \<open>disabled\<close> attribute of the trigger button and the \<open>isLoading\<close> captured by the closure
  of \<open>handleRunAnalysis\<close> belong to that render. The effect of the first render calls
  \<open>handleRunAnalysis\<close> once; a render is committed; a click on the trigger button is
  delivered unless the button of the last render is disabled, and calls the closure of
  that render (\<open>handleRunAnalysis\<close> itself does not look for a run in flight); a run in
  flight reports a status; the promise of a run in flight settles. \<open>in_flight\<close> counts the
  calls of \<open>handleRunAnalysis\<close> that have not reached their \<open>finally\<close> block.
\<close>

record ui =
  component :: app
  rendered :: app
  in_flight :: nat
  mounted :: bool

datatype ui_event = Mount | Render | Click | Status jsstring | Settle "exn + json"

definition initial_ui :: ui where
  "initial_ui =
     \<lparr>component = initial_app, rendered = initial_app, in_flight = 0, mounted = False\<rparr>"

definition start_run :: "bool \<Rightarrow> ui \<Rightarrow> ui" where
  "start_run captured x =
     x\<lparr>component := handleRunAnalysis_begin captured (component x),
       in_flight := Suc (in_flight x)\<rparr>"

fun ui_step :: "ui \<Rightarrow> ui_event \<Rightarrow> ui" where
  "ui_step x Mount =
     (if mounted x then x else start_run (isLoading (rendered x)) (x\<lparr>mounted := True\<rparr>))"
| "ui_step x Render = x\<lparr>rendered := component x\<rparr>"
| "ui_step x Click =
     (if button_disabled (App (rendered x)) then x
      else start_run (isLoading (rendered x)) x)"
| "ui_step x (Status message) =
     (if in_flight x = 0 then x
      else x\<lparr>component := snd (setStatusMessage message (component x))\<rparr>)"
| "ui_step x (Settle r) =
     (if in_flight x = 0 then x
      else x\<lparr>component := handleRunAnalysis_settle r (component x),
             in_flight := in_flight x - 1\<rparr>)"

definition ui_run :: "ui_event list \<Rightarrow> ui" where
  "ui_run evs = foldl ui_step initial_ui evs"

section \<open>Notions used in the statements and proofs\<close>

text \<open>The three status messages of the orchestrator and the error of the Macro Analyst.\<close>

abbreviation scout_status :: jsstring where
  "scout_status \<equiv> str ''Orchestrator: Calling News Scout Agent...''"

abbreviation verification_status :: jsstring where
  "verification_status \<equiv> str ''Orchestrator: Calling Verification Agent...''"

abbreviation analyst_status :: jsstring where
  "analyst_status \<equiv> str ''Orchestrator: Calling Macro Analyst Agent...''"

abbreviation analyst_failure :: jsstring where
  "analyst_failure \<equiv> str ''Macro Analyst agent failed to generate analysis. The model may have returned invalid JSON.''"

text \<open>
  What the \<open>try\<close> block of the Macro Analyst throws for an outcome of its request, if it
  throws: the rejection itself, the TypeError of \<open>undefined.trim()\<close>, the error for an
  empty text, or the SyntaxError of \<open>JSON.parse\<close>.
\<close>

definition analyst_thrown :: "outcome \<Rightarrow> exn option" where
  "analyst_thrown r =
     (case r of
        Rejected e \<Rightarrow> Some e
      | Resolved None \<Rightarrow> Some TypeError
      | Resolved (Some t) \<Rightarrow>
          if trim t = [] then Some (Error (str ''Macro Analyst returned an empty response.''))
          else if JSON_parse (trim t) = None then Some SyntaxError
          else None)"

text \<open>
  The events of a run that are steps (status updates and requests, not console lines),
  the events a run added to the trace, the text the Scout request resolves with, and the
  steps of a run that reaches its end, for the two copies of the module.
\<close>

fun is_step :: "event \<Rightarrow> bool" where
  "is_step (ConsoleError label e) = False"
| "is_step _ = True"

definition new_events :: "'u state \<Rightarrow> 'u state \<Rightarrow> event list" where
  "new_events s s' = drop (length (trace s)) (trace s')"

definition scout_text :: "model_api \<Rightarrow> 'u state \<Rightarrow> jsstring" where
  "scout_text api s =
     (case api (calls s) news_scout_request of Resolved (Some t) \<Rightarrow> t | _ \<Rightarrow> [])"

definition plan :: "jsstring \<Rightarrow> event list" where
  "plan t =
     [SetStatus scout_status, GenerateContent news_scout_request,
      SetStatus verification_status, GenerateContent (verification_request t),
      SetStatus analyst_status, GenerateContent (macro_analyst_request t)]"

definition plan_2 :: "jsstring \<Rightarrow> event list" where
  "plan_2 t =
     [SetStatus scout_status, GenerateContent news_scout_request,
      SetStatus analyst_status, GenerateContent (macro_analyst_request_2 t)]"

text \<open>
  The tokens of a value, and the values for which the round trip through
  \<open>JSON.stringify\<close> and \<open>JSON.parse\<close> is proved below: every number is an integer, and
  the keys of an object are distinct and none of them is an array index (so that the
  parser puts each member last, where the printer had it).
\<close>

fun toks :: "json \<Rightarrow> token list" where
  "toks JNull = [TNull]"
| "toks (JBool b) = [if b then TTrue else TFalse]"
| "toks (JNumber m d) = [TNumber m d]"
| "toks (JString s) = [TString s]"
| "toks (JArray es) = LBracket # join [Comma] (map toks es) @ [RBracket]"
| "toks (JObject ms) =
     LBrace # join [Comma] (map (\<lambda>(k, v). TString k # Colon # toks v) ms) @ [RBrace]"

fun plain :: "json \<Rightarrow> bool" where
  "plain (JNumber m d) = (d = 0)"
| "plain (JArray es) = list_all plain es"
| "plain (JObject ms) =
     (distinct (map fst ms) \<and> list_all (\<lambda>(k, v). \<not> is_array_index k \<and> plain v) ms)"
| "plain _ = True"

text \<open>
  Putting tokens in front of what the lexer returns for the rest of a text, and the texts
  that may follow a number.
\<close>

definition emit_all :: "token list \<Rightarrow> token list option \<Rightarrow> token list option" where
  "emit_all ts r = map_option ((@) ts) r"

definition delimited :: "jsstring \<Rightarrow> bool" where
  "delimited rest \<longleftrightarrow> rest = [] \<or> is_json_ws (hd rest) \<or> punct (hd rest) \<noteq> None"

text \<open>
  A sequence of events in which a render is committed between any two clicks
  (\<open>clicked\<close>: there has been a click since the last render), and the invariant of the
  mounted component along such a sequence: before the effect of the first render has run
  nothing has changed; a call of \<open>handleRunAnalysis\<close> is in flight exactly while the
  component is loading, and then no result and no error is held; and unless there has
  been a click since the last render, that render saw the loading state whenever the
  component is loading.
\<close>

fun paced :: "bool \<Rightarrow> ui_event list \<Rightarrow> bool" where
  "paced clicked [] = True"
| "paced clicked (Render # evs) = paced False evs"
| "paced clicked (Click # evs) = (\<not> clicked \<and> paced True evs)"
| "paced clicked (Mount # evs) = paced clicked evs"
| "paced clicked (Status message # evs) = paced clicked evs"
| "paced clicked (Settle r # evs) = paced clicked evs"

definition ui_inv :: "bool \<Rightarrow> ui \<Rightarrow> bool" where
  "ui_inv clicked x \<longleftrightarrow>
     (\<not> mounted x \<longrightarrow> x = initial_ui)
     \<and> in_flight x = (if mounted x \<and> isLoading (component x) then 1 else 0)
     \<and> (0 < in_flight x \<longrightarrow> result (component x) = None \<and> error (component x) = None)
     \<and> (\<not> clicked \<and> isLoading (component x) \<longrightarrow> isLoading (rendered x))"

section \<open>Sample runs\<close>

text \<open>
  A hosted model that answers the calls with a given list of outcomes, the state of the
  freshly mounted component with nothing sent yet, and sample texts: the news of the
  Scout, an objection of the fact-checker, the analysis of the specification's example
  with the value it parses to, and an analysis that breaks off in the middle.
\<close>

definition scripted :: "outcome list \<Rightarrow> model_api" where
  "scripted rs n req =
     (if n < length rs then rs ! n else Rejected (NonError (str ''no response scripted'')))"

definition idle :: "app state" where
  "idle = \<lparr>calls = 0, trace = [], client = initial_app\<rparr>"

definition sample_news :: jsstring where
  "sample_news = str ''1. Fed raises rates...''"

definition objection :: jsstring where
  "objection = str ''Item 1 is older than 48 hours.''"

definition sample_analysis :: jsstring where
  "sample_analysis = str ''{\"macro_analysis\":[{\"news_summary\":\"Fed raises rates\",\"identified_macro_factors\":[\"interest rates\"],\"impact_analysis\":\"...\"}]}''"

definition sample_result :: json where
  "sample_result =
     JObject [(str ''macro_analysis'',
       JArray [JObject [(str ''news_summary'', JString (str ''Fed raises rates'')),
                        (str ''identified_macro_factors'', JArray [JString (str ''interest rates'')]),
                        (str ''impact_analysis'', JString (str ''...''))]])]"

definition truncated_analysis :: jsstring where
  "truncated_analysis = str ''{\"macro_analysis\":[{\"news_summary\":\"Fed''"

text \<open>
  Hosted models for the sample runs: one where every step succeeds (for each copy of the
  module), one whose analysis is the empty string, one whose fact-check request is
  rejected, and one whose analysis is no JSON text. Then a status callback that throws a
  value that is no \<open>Error\<close>, and the state of the component after a successful run.
\<close>

definition sample_api :: model_api where
  "sample_api =
     scripted [Resolved (Some sample_news), Resolved (Some sample_news),
               Resolved (Some sample_analysis)]"

definition sample_api_2 :: model_api where
  "sample_api_2 = scripted [Resolved (Some sample_news), Resolved (Some sample_analysis)]"

definition empty_analysis_api :: model_api where
  "empty_analysis_api =
     scripted [Resolved (Some sample_news), Resolved (Some sample_news), Resolved (Some [])]"

definition rejecting_api :: model_api where
  "rejecting_api = scripted [Resolved (Some sample_news), Rejected (NonError (str ''503''))]"

definition invalid_json_api :: model_api where
  "invalid_json_api =
     scripted [Resolved (Some sample_news), Resolved (Some sample_news),
               Resolved (Some truncated_analysis)]"

definition failing_callback :: "app callback" where
  "failing_callback message u = (Some (NonError (str ''boom'')), u)"

definition previous_success :: "app state" where
  "previous_success =
     \<lparr>calls = 0, trace = [],
      client = \<lparr>isLoading = False, statusMessage = str ''Analysis complete.'',
                result = Some sample_result, error = None\<rparr>\<rparr>"

section \<open>The steps of the service module\<close>

subsection \<open>One step at a time\<close>

lemmas action_defs = returnE_def throwE_def bindE_def try_catch_def console_error_def
  generateContent_def invoke_def

lemma invoke_ok:
  "fst (setStatus m (client s)) = None \<Longrightarrow>
   invoke setStatus m s =
     (Inr (), s\<lparr>trace := trace s @ [SetStatus m], client := snd (setStatus m (client s))\<rparr>)"
  by (cases "setStatus m (client s)") (simp add: invoke_def)

lemma invoke_throws:
  "fst (setStatus m (client s)) = Some e \<Longrightarrow>
   invoke setStatus m s =
     (Inl e, s\<lparr>trace := trace s @ [SetStatus m], client := snd (setStatus m (client s))\<rparr>)"
  by (cases "setStatus m (client s)") (simp add: invoke_def)

lemma setStatusMessage_never_throws [simp]: "fst (setStatusMessage m u) = None"
  by (simp add: setStatusMessage_def)

lemma scout_resolved:
  "api (calls s) news_scout_request = Resolved t \<Longrightarrow>
   runNewsScoutAgent api s =
     (Inr t, s\<lparr>calls := Suc (calls s), trace := trace s @ [GenerateContent news_scout_request]\<rparr>)"
  by (simp add: runNewsScoutAgent_def action_defs)

lemma scout_rejected:
  "api (calls s) news_scout_request = Rejected e \<Longrightarrow>
   runNewsScoutAgent api s =
     (Inl (Error (str ''News Scout agent failed to retrieve news.'')),
      s\<lparr>calls := Suc (calls s),
        trace := trace s @ [GenerateContent news_scout_request,
                            ConsoleError (str ''Agent 1 (News Scout) failed:'') e]\<rparr>)"
  by (simp add: runNewsScoutAgent_def action_defs)

lemma verification_resolved:
  "api (calls s) (verification_request t) = Resolved r \<Longrightarrow>
   runVerificationAgent api t s =
     (Inr t, s\<lparr>calls := Suc (calls s),
               trace := trace s @ [GenerateContent (verification_request t)]\<rparr>)"
  by (simp add: runVerificationAgent_def action_defs)

lemma verification_rejected:
  "api (calls s) (verification_request t) = Rejected e \<Longrightarrow>
   runVerificationAgent api t s =
     (Inl (Error (str ''Verification agent failed. It may have found fake, inaccurate, or old news.'')),
      s\<lparr>calls := Suc (calls s),
        trace := trace s @ [GenerateContent (verification_request t),
                            ConsoleError (str ''Agent 1.5 (Verification) failed:'') e]\<rparr>)"
  by (simp add: runVerificationAgent_def action_defs)

lemma analyst_returns:
  "api (calls s) req = Resolved (Some t) \<Longrightarrow> trim t \<noteq> [] \<Longrightarrow> JSON_parse (trim t) = Some v \<Longrightarrow>
   macro_analyst_agent api req s =
     (Inr v, s\<lparr>calls := Suc (calls s), trace := trace s @ [GenerateContent req]\<rparr>)"
  by (simp add: macro_analyst_agent_def action_defs)

lemma analyst_throws:
  "analyst_thrown (api (calls s) req) = Some e \<Longrightarrow>
   macro_analyst_agent api req s =
     (Inl (Error (str ''Macro Analyst agent failed to generate analysis. The model may have returned invalid JSON.'')),
      s\<lparr>calls := Suc (calls s),
        trace := trace s @ [GenerateContent req,
                            ConsoleError (str ''Agent 2 (Macro Analyst) failed:'') e]\<rparr>)"
  by (auto simp add: macro_analyst_agent_def action_defs analyst_thrown_def Let_def
      split: outcome.splits option.splits if_splits)

lemma analyst_cases:
  obtains (returns) t v where "api (calls s) req = Resolved (Some t)" "trim t \<noteq> []"
      "JSON_parse (trim t) = Some v"
  | (throws) e where "analyst_thrown (api (calls s) req) = Some e"
  by (cases "analyst_thrown (api (calls s) req)")
     (auto simp: analyst_thrown_def split: outcome.splits option.splits if_splits)

lemma analyst_thrown_invalid:
  "JSON_parse (trim a) = None \<Longrightarrow> analyst_thrown (Resolved (Some a)) \<noteq> None"
  by (simp add: analyst_thrown_def)

lemma orchestrator_catch_eq:
  "orchestrator_catch e s =
     (Inl (case e of Error m \<Rightarrow> Error m
                   | NonError v \<Rightarrow> Error (str ''An unknown error occurred during orchestration.'')),
      s\<lparr>trace := trace s @ [ConsoleError (str ''Orchestrator failed:'') e]\<rparr>)"
  by (simp add: orchestrator_catch_def action_defs split: exn.splits)

text \<open>What each step adds to the trace, and that no step but the callback touches the caller.\<close>

lemma invoke_facts:
  assumes "invoke setStatus m s = (r, s')"
  shows "trace s' = trace s @ [SetStatus m]" and "calls s' = calls s"
  using assms by (auto simp: invoke_def split: prod.splits)

lemma scout_facts:
  assumes "runNewsScoutAgent api s = (r, s')"
  shows "calls s' = Suc (calls s)"
    and "\<And>t. r = Inr t \<Longrightarrow> api (calls s) news_scout_request = Resolved t
           \<and> trace s' = trace s @ [GenerateContent news_scout_request]"
    and "\<And>e. r = Inl e \<Longrightarrow> \<exists>x. trace s' = trace s @
           [GenerateContent news_scout_request, ConsoleError (str ''Agent 1 (News Scout) failed:'') x]"
  using assms
  by (cases "api (calls s) news_scout_request"; auto simp: scout_resolved scout_rejected)+

lemma verification_facts:
  assumes "runVerificationAgent api t s = (r, s')"
  shows "calls s' = Suc (calls s)"
    and "\<And>t'. r = Inr t' \<Longrightarrow> t' = t \<and> (\<exists>x. api (calls s) (verification_request t) = Resolved x)
           \<and> trace s' = trace s @ [GenerateContent (verification_request t)]"
    and "\<And>e. r = Inl e \<Longrightarrow> \<exists>x. trace s' = trace s @
           [GenerateContent (verification_request t),
            ConsoleError (str ''Agent 1.5 (Verification) failed:'') x]"
  using assms
  by (cases "api (calls s) (verification_request t)";
      auto simp: verification_resolved verification_rejected)+

lemma analyst_facts:
  assumes "macro_analyst_agent api req s = (r, s')"
  shows "calls s' = Suc (calls s)"
    and "\<And>v. r = Inr v \<Longrightarrow> trace s' = trace s @ [GenerateContent req]"
    and "\<And>e. r = Inl e \<Longrightarrow> \<exists>x. trace s' = trace s @
           [GenerateContent req, ConsoleError (str ''Agent 2 (Macro Analyst) failed:'') x]"
  using assms
  by (cases rule: analyst_cases [of api s req]; auto simp: analyst_returns analyst_throws)+

lemma invoke_client:
  "invoke setStatus m s = (r, s') \<Longrightarrow> client s' = snd (setStatus m (client s))"
  by (auto simp: invoke_def split: prod.splits)

lemma scout_client: "runNewsScoutAgent api s = (r, s') \<Longrightarrow> client s' = client s"
  by (cases "api (calls s) news_scout_request") (auto simp: scout_resolved scout_rejected)

lemma verification_client: "runVerificationAgent api t s = (r, s') \<Longrightarrow> client s' = client s"
  by (cases "api (calls s) (verification_request t)")
     (auto simp: verification_resolved verification_rejected)

lemma analyst_client: "macro_analyst_agent api req s = (r, s') \<Longrightarrow> client s' = client s"
  by (cases rule: analyst_cases [of api s req]) (auto simp: analyst_returns analyst_throws)

lemma requests_distinct:
  "news_scout_request \<noteq> verification_request t"
  "verification_request t \<noteq> news_scout_request"
  "news_scout_request \<noteq> macro_analyst_request t"
  "macro_analyst_request t \<noteq> news_scout_request"
  "verification_request t \<noteq> macro_analyst_request t'"
  "macro_analyst_request t' \<noteq> verification_request t"
  "news_scout_request \<noteq> macro_analyst_request_2 t"
  "macro_analyst_request_2 t \<noteq> news_scout_request"
proof -
  have a: "r \<noteq> r'" if "googleSearch r \<noteq> googleSearch r'" for r r' :: request
    using that by auto
  have b: "r \<noteq> r'" if "hd (drop 11 (systemInstruction r)) \<noteq> hd (drop 11 (systemInstruction r'))"
    for r r' :: request
    using that by auto
  show "news_scout_request \<noteq> verification_request t"
    by (rule b) (simp add: news_scout_request_def verification_request_def str_def)
  then show "verification_request t \<noteq> news_scout_request" by simp
  show "news_scout_request \<noteq> macro_analyst_request t"
    by (rule a) (simp add: news_scout_request_def macro_analyst_request_def)
  then show "macro_analyst_request t \<noteq> news_scout_request" by simp
  show "verification_request t \<noteq> macro_analyst_request t'"
    by (rule a) (simp add: verification_request_def macro_analyst_request_def)
  then show "macro_analyst_request t' \<noteq> verification_request t" by simp
  show "news_scout_request \<noteq> macro_analyst_request_2 t"
    by (rule a) (simp add: news_scout_request_def macro_analyst_request_2_def)
  then show "macro_analyst_request_2 t \<noteq> news_scout_request" by simp
qed

subsection \<open>The ways a run of the orchestrator can go\<close>

lemma run_status1_throws:
  "invoke setStatus scout_status s = (Inl e, s1) \<Longrightarrow>
   runAnalysisOrchestrator api setStatus s = orchestrator_catch e s1"
  by (simp add: runAnalysisOrchestrator_def try_catch_def bindE_def)

lemma run_scout_throws:
  "invoke setStatus scout_status s = (Inr (), s1) \<Longrightarrow>
   runNewsScoutAgent api s1 = (Inl e, s2) \<Longrightarrow>
   runAnalysisOrchestrator api setStatus s = orchestrator_catch e s2"
  by (simp add: runAnalysisOrchestrator_def try_catch_def bindE_def)

lemma run_no_content:
  "invoke setStatus scout_status s = (Inr (), s1) \<Longrightarrow>
   runNewsScoutAgent api s1 = (Inr newsText, s2) \<Longrightarrow> no_content newsText \<Longrightarrow>
   runAnalysisOrchestrator api setStatus s =
     orchestrator_catch (Error (str ''News Scout returned no content.'')) s2"
  by (simp add: runAnalysisOrchestrator_def try_catch_def bindE_def throwE_def)

lemma run_status2_throws:
  "invoke setStatus scout_status s = (Inr (), s1) \<Longrightarrow>
   runNewsScoutAgent api s1 = (Inr newsText, s2) \<Longrightarrow> \<not> no_content newsText \<Longrightarrow>
   invoke setStatus verification_status s2 = (Inl e, s3) \<Longrightarrow>
   runAnalysisOrchestrator api setStatus s = orchestrator_catch e s3"
  by (simp add: runAnalysisOrchestrator_def try_catch_def bindE_def)

lemma run_verification_throws:
  "invoke setStatus scout_status s = (Inr (), s1) \<Longrightarrow>
   runNewsScoutAgent api s1 = (Inr newsText, s2) \<Longrightarrow> \<not> no_content newsText \<Longrightarrow>
   invoke setStatus verification_status s2 = (Inr (), s3) \<Longrightarrow>
   runVerificationAgent api (the newsText) s3 = (Inl e, s4) \<Longrightarrow>
   runAnalysisOrchestrator api setStatus s = orchestrator_catch e s4"
  by (simp add: runAnalysisOrchestrator_def try_catch_def bindE_def)

lemma run_status3_throws:
  "invoke setStatus scout_status s = (Inr (), s1) \<Longrightarrow>
   runNewsScoutAgent api s1 = (Inr newsText, s2) \<Longrightarrow> \<not> no_content newsText \<Longrightarrow>
   invoke setStatus verification_status s2 = (Inr (), s3) \<Longrightarrow>
   runVerificationAgent api (the newsText) s3 = (Inr verified, s4) \<Longrightarrow>
   invoke setStatus analyst_status s4 = (Inl e, s5) \<Longrightarrow>
   runAnalysisOrchestrator api setStatus s = orchestrator_catch e s5"
  by (simp add: runAnalysisOrchestrator_def try_catch_def bindE_def)

lemma run_analyst_throws:
  "invoke setStatus scout_status s = (Inr (), s1) \<Longrightarrow>
   runNewsScoutAgent api s1 = (Inr newsText, s2) \<Longrightarrow> \<not> no_content newsText \<Longrightarrow>
   invoke setStatus verification_status s2 = (Inr (), s3) \<Longrightarrow>
   runVerificationAgent api (the newsText) s3 = (Inr verified, s4) \<Longrightarrow>
   invoke setStatus analyst_status s4 = (Inr (), s5) \<Longrightarrow>
   runMacroAnalystAgent api verified s5 = (Inl e, s6) \<Longrightarrow>
   runAnalysisOrchestrator api setStatus s = orchestrator_catch e s6"
  by (simp add: runAnalysisOrchestrator_def try_catch_def bindE_def)

lemma run_returns:
  "invoke setStatus scout_status s = (Inr (), s1) \<Longrightarrow>
   runNewsScoutAgent api s1 = (Inr newsText, s2) \<Longrightarrow> \<not> no_content newsText \<Longrightarrow>
   invoke setStatus verification_status s2 = (Inr (), s3) \<Longrightarrow>
   runVerificationAgent api (the newsText) s3 = (Inr verified, s4) \<Longrightarrow>
   invoke setStatus analyst_status s4 = (Inr (), s5) \<Longrightarrow>
   runMacroAnalystAgent api verified s5 = (Inr v, s6) \<Longrightarrow>
   runAnalysisOrchestrator api setStatus s = (Inr v, s6)"
  by (simp add: runAnalysisOrchestrator_def try_catch_def bindE_def returnE_def)

lemma orchestrator_cases [case_names status1 scout no_content status2 verification status3 analyst
    returns]:
  fixes api :: model_api and setStatus :: "'u callback" and s :: "'u state"
  obtains
    e s1 where "invoke setStatus scout_status s = (Inl e, s1)"
      "runAnalysisOrchestrator api setStatus s = orchestrator_catch e s1"
  | s1 e s2 where "invoke setStatus scout_status s = (Inr (), s1)"
      "runNewsScoutAgent api s1 = (Inl e, s2)"
      "runAnalysisOrchestrator api setStatus s = orchestrator_catch e s2"
  | s1 newsText s2 where "invoke setStatus scout_status s = (Inr (), s1)"
      "runNewsScoutAgent api s1 = (Inr newsText, s2)" "no_content newsText"
      "runAnalysisOrchestrator api setStatus s =
         orchestrator_catch (Error (str ''News Scout returned no content.'')) s2"
  | s1 t s2 e s3 where "invoke setStatus scout_status s = (Inr (), s1)"
      "runNewsScoutAgent api s1 = (Inr (Some t), s2)" "trim t \<noteq> []"
      "invoke setStatus verification_status s2 = (Inl e, s3)"
      "runAnalysisOrchestrator api setStatus s = orchestrator_catch e s3"
  | s1 t s2 s3 e s4 where "invoke setStatus scout_status s = (Inr (), s1)"
      "runNewsScoutAgent api s1 = (Inr (Some t), s2)" "trim t \<noteq> []"
      "invoke setStatus verification_status s2 = (Inr (), s3)"
      "runVerificationAgent api t s3 = (Inl e, s4)"
      "runAnalysisOrchestrator api setStatus s = orchestrator_catch e s4"
  | s1 t s2 s3 s4 e s5 where "invoke setStatus scout_status s = (Inr (), s1)"
      "runNewsScoutAgent api s1 = (Inr (Some t), s2)" "trim t \<noteq> []"
      "invoke setStatus verification_status s2 = (Inr (), s3)"
      "runVerificationAgent api t s3 = (Inr t, s4)"
      "invoke setStatus analyst_status s4 = (Inl e, s5)"
      "runAnalysisOrchestrator api setStatus s = orchestrator_catch e s5"
  | s1 t s2 s3 s4 s5 e s6 where "invoke setStatus scout_status s = (Inr (), s1)"
      "runNewsScoutAgent api s1 = (Inr (Some t), s2)" "trim t \<noteq> []"
      "invoke setStatus verification_status s2 = (Inr (), s3)"
      "runVerificationAgent api t s3 = (Inr t, s4)"
      "invoke setStatus analyst_status s4 = (Inr (), s5)"
      "runMacroAnalystAgent api t s5 = (Inl e, s6)"
      "runAnalysisOrchestrator api setStatus s = orchestrator_catch e s6"
  | s1 t s2 s3 s4 s5 v s6 where "invoke setStatus scout_status s = (Inr (), s1)"
      "runNewsScoutAgent api s1 = (Inr (Some t), s2)" "trim t \<noteq> []"
      "invoke setStatus verification_status s2 = (Inr (), s3)"
      "runVerificationAgent api t s3 = (Inr t, s4)"
      "invoke setStatus analyst_status s4 = (Inr (), s5)"
      "runMacroAnalystAgent api t s5 = (Inr v, s6)"
      "runAnalysisOrchestrator api setStatus s = (Inr v, s6)"
proof -
  obtain r1 s1 where i1: "invoke setStatus scout_status s = (r1, s1)" by fastforce
  show thesis
  proof (cases r1)
    case (Inl e)
    with i1 show thesis using that(1) run_status1_throws by blast
  next
    case (Inr u1)
    with i1 have j1: "invoke setStatus scout_status s = (Inr (), s1)" by simp
    obtain r2 s2 where i2: "runNewsScoutAgent api s1 = (r2, s2)" by fastforce
    show thesis
    proof (cases r2)
      case (Inl e)
      with i2 j1 show thesis using that(2) run_scout_throws by blast
    next
      case (Inr newsText)
      with i2 have j2: "runNewsScoutAgent api s1 = (Inr newsText, s2)" by simp
      show thesis
      proof (cases "no_content newsText")
        case True
        with j1 j2 show thesis using that(3) run_no_content by blast
      next
        case False
        then obtain t where t: "newsText = Some t" "trim t \<noteq> []"
          by (cases newsText) (auto simp: no_content_def)
        note k2 = j2 [unfolded t(1)]
        have nc: "\<not> no_content (Some t)" using False t by simp
        obtain r3 s3 where i3: "invoke setStatus verification_status s2 = (r3, s3)" by fastforce
        show thesis
        proof (cases r3)
          case (Inl e)
          with i3 have "invoke setStatus verification_status s2 = (Inl e, s3)" by simp
          from that(4) [OF j1 k2 t(2) this] run_status2_throws [OF j1 k2 nc this]
          show thesis by blast
        next
          case (Inr u3)
          with i3 have j3: "invoke setStatus verification_status s2 = (Inr (), s3)" by simp
          obtain r4 s4 where i4: "runVerificationAgent api t s3 = (r4, s4)" by fastforce
          show thesis
          proof (cases r4)
            case (Inl e)
            with i4 have j4: "runVerificationAgent api t s3 = (Inl e, s4)" by simp
            from that(5) [OF j1 k2 t(2) j3 j4] run_verification_throws [OF j1 k2 nc j3] j4
            show thesis by simp
          next
            case (Inr t')
            with i4 verification_facts(2) [OF i4] have j4: "runVerificationAgent api t s3 = (Inr t, s4)"
              by simp
            obtain r5 s5 where i5: "invoke setStatus analyst_status s4 = (r5, s5)" by fastforce
            show thesis
            proof (cases r5)
              case (Inl e)
              with i5 have j5: "invoke setStatus analyst_status s4 = (Inl e, s5)" by simp
              from that(6) [OF j1 k2 t(2) j3 j4 j5] run_status3_throws [OF j1 k2 nc j3 _ j5] j4
              show thesis by simp
            next
              case (Inr u5)
              with i5 have j5: "invoke setStatus analyst_status s4 = (Inr (), s5)" by simp
              obtain r6 s6 where i6: "runMacroAnalystAgent api t s5 = (r6, s6)" by fastforce
              show thesis
              proof (cases r6)
                case (Inl e)
                with i6 have j6: "runMacroAnalystAgent api t s5 = (Inl e, s6)" by simp
                from that(7) [OF j1 k2 t(2) j3 j4 j5 j6]
                  run_analyst_throws [OF j1 k2 nc j3 _ j5 j6] j4
                show thesis by simp
              next
                case (Inr v)
                with i6 have j6: "runMacroAnalystAgent api t s5 = (Inr v, s6)" by simp
                from that(8) [OF j1 k2 t(2) j3 j4 j5 j6] run_returns [OF j1 k2 nc j3 _ j5 j6] j4
                show thesis by simp
              qed
            qed
          qed
        qed
      qed
    qed
  qed
qed

lemma orchestrator_trace:
  fixes api setStatus s
  defines "res \<equiv> runAnalysisOrchestrator api setStatus s"
  defines "evs \<equiv> new_events s (snd res)"
  defines "t \<equiv> scout_text api s"
  shows "trace (snd res) = trace s @ evs
   \<and> prefix (filter is_step evs) (plan t)
   \<and> (\<forall>v. fst res = Inr v \<longrightarrow> filter is_step evs = plan t)
   \<and> (GenerateContent (verification_request t) \<in> set evs \<longrightarrow>
        api (calls s) news_scout_request = Resolved (Some t))
   \<and> (GenerateContent (macro_analyst_request t) \<in> set evs \<longrightarrow>
        (\<exists>r. api (Suc (calls s)) (verification_request t) = Resolved r))"
proof (cases rule: orchestrator_cases [of setStatus s api])
  case (status1 e s1)
  then show ?thesis
    using invoke_facts [OF status1(1)]
    by (simp add: res_def evs_def t_def orchestrator_catch_eq new_events_def plan_def)
next
  case (scout s1 e s2)
  then show ?thesis
    using invoke_facts [OF scout(1)] scout_facts(3) [OF scout(2)]
    by (auto simp add: res_def evs_def t_def orchestrator_catch_eq new_events_def plan_def
        requests_distinct)
next
  case (no_content s1 newsText s2)
  then show ?thesis
    using invoke_facts [OF no_content(1)] scout_facts(2) [OF no_content(2)]
    by (simp add: res_def evs_def t_def orchestrator_catch_eq new_events_def plan_def
        requests_distinct)
next
  case (status2 s1 t' s2 e s3)
  then show ?thesis
    using invoke_facts [OF status2(1)] scout_facts(2) [OF status2(2)] invoke_facts [OF status2(4)]
    by (simp add: res_def evs_def t_def orchestrator_catch_eq new_events_def plan_def
        scout_text_def requests_distinct)
next
  case (verification s1 t' s2 s3 e s4)
  then show ?thesis
    using invoke_facts [OF verification(1)] scout_facts(2) [OF verification(2)]
      invoke_facts [OF verification(4)] verification_facts(3) [OF verification(5)]
    by (auto simp add: res_def evs_def t_def orchestrator_catch_eq new_events_def plan_def
        scout_text_def requests_distinct)
next
  case (status3 s1 t' s2 s3 s4 e s5)
  then show ?thesis
    using invoke_facts [OF status3(1)] scout_facts(2) [OF status3(2)] scout_facts(1) [OF status3(2)]
      invoke_facts [OF status3(4)] verification_facts(2) [OF status3(5)]
      invoke_facts [OF status3(6)]
    by (auto simp add: res_def evs_def t_def orchestrator_catch_eq new_events_def plan_def
        scout_text_def requests_distinct)
next
  case (analyst s1 t' s2 s3 s4 s5 e s6)
  then show ?thesis
    using invoke_facts [OF analyst(1)] scout_facts(2) [OF analyst(2)] scout_facts(1) [OF analyst(2)]
      invoke_facts [OF analyst(4)] verification_facts(2) [OF analyst(5)]
      invoke_facts [OF analyst(6)]
      analyst_facts(3) [OF analyst(7) [unfolded runMacroAnalystAgent_def]]
    by (auto simp add: res_def evs_def t_def orchestrator_catch_eq new_events_def plan_def
        scout_text_def requests_distinct)
next
  case (returns s1 t' s2 s3 s4 s5 v s6)
  then show ?thesis
    using invoke_facts [OF returns(1)] scout_facts(2) [OF returns(2)] scout_facts(1) [OF returns(2)]
      invoke_facts [OF returns(4)] verification_facts(2) [OF returns(5)]
      invoke_facts [OF returns(6)]
      analyst_facts(2) [OF returns(7) [unfolded runMacroAnalystAgent_def]]
    by (auto simp add: res_def evs_def t_def new_events_def plan_def scout_text_def
        requests_distinct)
qed

text \<open>The same for the orchestrator without the Verification agent.\<close>

lemma orchestrator_2_cases [case_names status1 scout no_content status2 analyst returns]:
  fixes api :: model_api and setStatus :: "'u callback" and s :: "'u state"
  obtains
    e s1 where "invoke setStatus scout_status s = (Inl e, s1)"
      "runAnalysisOrchestrator_2 api setStatus s = orchestrator_catch e s1"
  | s1 e s2 where "invoke setStatus scout_status s = (Inr (), s1)"
      "runNewsScoutAgent api s1 = (Inl e, s2)"
      "runAnalysisOrchestrator_2 api setStatus s = orchestrator_catch e s2"
  | s1 newsText s2 where "invoke setStatus scout_status s = (Inr (), s1)"
      "runNewsScoutAgent api s1 = (Inr newsText, s2)" "no_content newsText"
      "runAnalysisOrchestrator_2 api setStatus s =
         orchestrator_catch (Error (str ''News Scout returned no content.'')) s2"
  | s1 t s2 e s3 where "invoke setStatus scout_status s = (Inr (), s1)"
      "runNewsScoutAgent api s1 = (Inr (Some t), s2)" "trim t \<noteq> []"
      "invoke setStatus analyst_status s2 = (Inl e, s3)"
      "runAnalysisOrchestrator_2 api setStatus s = orchestrator_catch e s3"
  | s1 t s2 s3 e s4 where "invoke setStatus scout_status s = (Inr (), s1)"
      "runNewsScoutAgent api s1 = (Inr (Some t), s2)" "trim t \<noteq> []"
      "invoke setStatus analyst_status s2 = (Inr (), s3)"
      "runMacroAnalystAgent_2 api t s3 = (Inl e, s4)"
      "runAnalysisOrchestrator_2 api setStatus s = orchestrator_catch e s4"
  | s1 t s2 s3 v s4 where "invoke setStatus scout_status s = (Inr (), s1)"
      "runNewsScoutAgent api s1 = (Inr (Some t), s2)" "trim t \<noteq> []"
      "invoke setStatus analyst_status s2 = (Inr (), s3)"
      "runMacroAnalystAgent_2 api t s3 = (Inr v, s4)"
      "runAnalysisOrchestrator_2 api setStatus s = (Inr v, s4)"
proof -
  note defs = runAnalysisOrchestrator_2_def try_catch_def bindE_def throwE_def returnE_def
  obtain r1 s1 where i1: "invoke setStatus scout_status s = (r1, s1)" by fastforce
  show thesis
  proof (cases r1)
    case (Inl e)
    with i1 show thesis using that(1) [of e s1] by (simp add: defs)
  next
    case (Inr u1)
    with i1 have j1: "invoke setStatus scout_status s = (Inr (), s1)" by simp
    obtain r2 s2 where i2: "runNewsScoutAgent api s1 = (r2, s2)" by fastforce
    show thesis
    proof (cases r2)
      case (Inl e)
      with i2 j1 show thesis using that(2) [of s1 e s2] by (simp add: defs)
    next
      case (Inr newsText)
      with i2 have j2: "runNewsScoutAgent api s1 = (Inr newsText, s2)" by simp
      show thesis
      proof (cases "no_content newsText")
        case True
        with j1 j2 show thesis using that(3) [of s1 newsText s2] by (simp add: defs)
      next
        case False
        then obtain t where t: "newsText = Some t" "trim t \<noteq> []"
          by (cases newsText) (auto simp: no_content_def)
        note k2 = j2 [unfolded t(1)]
        have nc: "\<not> no_content (Some t)" using False t by simp
        obtain r3 s3 where i3: "invoke setStatus analyst_status s2 = (r3, s3)" by fastforce
        show thesis
        proof (cases r3)
          case (Inl e)
          with i3 have j3: "invoke setStatus analyst_status s2 = (Inl e, s3)" by simp
          from that(4) [OF j1 k2 t(2) j3] j1 k2 nc j3 show thesis by (simp add: defs)
        next
          case (Inr u3)
          with i3 have j3: "invoke setStatus analyst_status s2 = (Inr (), s3)" by simp
          obtain r4 s4 where i4: "runMacroAnalystAgent_2 api t s3 = (r4, s4)" by fastforce
          show thesis
          proof (cases r4)
            case (Inl e)
            with i4 have j4: "runMacroAnalystAgent_2 api t s3 = (Inl e, s4)" by simp
            from that(5) [OF j1 k2 t(2) j3 j4] j1 k2 nc j3 j4 show thesis by (simp add: defs)
          next
            case (Inr v)
            with i4 have j4: "runMacroAnalystAgent_2 api t s3 = (Inr v, s4)" by simp
            from that(6) [OF j1 k2 t(2) j3 j4] j1 k2 nc j3 j4 show thesis by (simp add: defs)
          qed
        qed
      qed
    qed
  qed
qed

lemma orchestrator_2_trace:
  fixes api setStatus s
  defines "res \<equiv> runAnalysisOrchestrator_2 api setStatus s"
  defines "evs \<equiv> new_events s (snd res)"
  defines "t \<equiv> scout_text api s"
  shows "trace (snd res) = trace s @ evs
   \<and> prefix (filter is_step evs) (plan_2 t)
   \<and> (\<forall>v. fst res = Inr v \<longrightarrow> filter is_step evs = plan_2 t)
   \<and> (GenerateContent (macro_analyst_request_2 t) \<in> set evs \<longrightarrow>
        api (calls s) news_scout_request = Resolved (Some t))"
proof (cases rule: orchestrator_2_cases [of setStatus s api])
  case (status1 e s1)
  then show ?thesis
    using invoke_facts [OF status1(1)]
    by (simp add: res_def evs_def t_def orchestrator_catch_eq new_events_def plan_2_def)
next
  case (scout s1 e s2)
  then show ?thesis
    using invoke_facts [OF scout(1)] scout_facts(3) [OF scout(2)]
    by (auto simp add: res_def evs_def t_def orchestrator_catch_eq new_events_def plan_2_def
        requests_distinct)
next
  case (no_content s1 newsText s2)
  then show ?thesis
    using invoke_facts [OF no_content(1)] scout_facts(2) [OF no_content(2)]
    by (simp add: res_def evs_def t_def orchestrator_catch_eq new_events_def plan_2_def
        requests_distinct)
next
  case (status2 s1 t' s2 e s3)
  then show ?thesis
    using invoke_facts [OF status2(1)] scout_facts(2) [OF status2(2)] invoke_facts [OF status2(4)]
    by (simp add: res_def evs_def t_def orchestrator_catch_eq new_events_def plan_2_def
        scout_text_def requests_distinct)
next
  case (analyst s1 t' s2 s3 e s4)
  then show ?thesis
    using invoke_facts [OF analyst(1)] scout_facts(2) [OF analyst(2)]
      invoke_facts [OF analyst(4)]
      analyst_facts(3) [OF analyst(5) [unfolded runMacroAnalystAgent_2_def]]
    by (auto simp add: res_def evs_def t_def orchestrator_catch_eq new_events_def plan_2_def
        scout_text_def requests_distinct)
next
  case (returns s1 t' s2 s3 v s4)
  then show ?thesis
    using invoke_facts [OF returns(1)] scout_facts(2) [OF returns(2)]
      invoke_facts [OF returns(4)]
      analyst_facts(2) [OF returns(5) [unfolded runMacroAnalystAgent_2_def]]
    by (auto simp add: res_def evs_def t_def new_events_def plan_2_def scout_text_def
        requests_distinct)
qed

text \<open>A run whose Scout and Verification steps succeed comes down to the Macro Analyst.\<close>

lemma run_eval:
  assumes "fst (setStatus scout_status (client s)) = None"
    and "api (calls s) news_scout_request = Resolved (Some t)" and "trim t \<noteq> []"
    and "fst (setStatus verification_status (snd (setStatus scout_status (client s)))) = None"
    and "api (Suc (calls s)) (verification_request t) = Resolved r"
    and "fst (setStatus analyst_status
           (snd (setStatus verification_status (snd (setStatus scout_status (client s)))))) = None"
  shows "runAnalysisOrchestrator api setStatus s =
     try_catch (runMacroAnalystAgent api t) orchestrator_catch
       (s\<lparr>calls := Suc (Suc (calls s)),
          trace := trace s @
            [SetStatus scout_status, GenerateContent news_scout_request,
             SetStatus verification_status, GenerateContent (verification_request t),
             SetStatus analyst_status],
          client := snd (setStatus analyst_status
             (snd (setStatus verification_status (snd (setStatus scout_status (client s))))))\<rparr>)"
proof -
  have "t \<noteq> []" using assms(3) by (auto simp: trim_def)
  with assms show ?thesis
    by (simp add: runAnalysisOrchestrator_def try_catch_def bindE_def returnE_def invoke_ok
        scout_resolved verification_resolved no_content_def split: prod.splits sum.splits)
qed

lemma run_2_eval:
  assumes "fst (setStatus scout_status (client s)) = None"
    and "api (calls s) news_scout_request = Resolved (Some t)" and "trim t \<noteq> []"
    and "fst (setStatus analyst_status (snd (setStatus scout_status (client s)))) = None"
  shows "runAnalysisOrchestrator_2 api setStatus s =
     try_catch (runMacroAnalystAgent_2 api t) orchestrator_catch
       (s\<lparr>calls := Suc (calls s),
          trace := trace s @
            [SetStatus scout_status, GenerateContent news_scout_request,
             SetStatus analyst_status],
          client := snd (setStatus analyst_status (snd (setStatus scout_status (client s))))\<rparr>)"
proof -
  have "t \<noteq> []" using assms(3) by (auto simp: trim_def)
  with assms show ?thesis
    by (simp add: runAnalysisOrchestrator_2_def try_catch_def bindE_def returnE_def invoke_ok
        scout_resolved no_content_def split: prod.splits sum.splits)
qed
lemma run_analyst_failure:
  assumes "api (calls s) news_scout_request = Resolved (Some news)" and "trim news \<noteq> []"
    and "api (Suc (calls s)) (verification_request news) = Resolved r"
    and "analyst_thrown (api (Suc (Suc (calls s))) (macro_analyst_request news)) = Some e"
  shows "fst (runAnalysisOrchestrator api setStatusMessage s) = Inl (Error analyst_failure)"
  using assms
  by (subst run_eval [where t = news and r = r])
     (simp_all add: runMacroAnalystAgent_def analyst_throws try_catch_def orchestrator_catch_eq)

subsection \<open>The orchestrator as called by the component\<close>

lemma orchestrator_keeps_result:
  "result (client (snd (runAnalysisOrchestrator api setStatusMessage s))) = result (client s)"
proof (cases rule: orchestrator_cases [of setStatusMessage s api])
  case (status1 e s1)
  then show ?thesis
    using invoke_client [OF status1(1)]
    by (simp add: orchestrator_catch_eq setStatusMessage_def)
next
  case (scout s1 e s2)
  then show ?thesis
    using invoke_client [OF scout(1)] scout_client [OF scout(2)]
    by (simp add: orchestrator_catch_eq setStatusMessage_def)
next
  case (no_content s1 newsText s2)
  then show ?thesis
    using invoke_client [OF no_content(1)] scout_client [OF no_content(2)]
    by (simp add: orchestrator_catch_eq setStatusMessage_def)
next
  case (status2 s1 t s2 e s3)
  then show ?thesis
    using invoke_client [OF status2(1)] scout_client [OF status2(2)] invoke_client [OF status2(4)]
    by (simp add: orchestrator_catch_eq setStatusMessage_def)
next
  case (verification s1 t s2 s3 e s4)
  then show ?thesis
    using invoke_client [OF verification(1)] scout_client [OF verification(2)]
      invoke_client [OF verification(4)] verification_client [OF verification(5)]
    by (simp add: orchestrator_catch_eq setStatusMessage_def)
next
  case (status3 s1 t s2 s3 s4 e s5)
  then show ?thesis
    using invoke_client [OF status3(1)] scout_client [OF status3(2)]
      invoke_client [OF status3(4)] verification_client [OF status3(5)]
      invoke_client [OF status3(6)]
    by (simp add: orchestrator_catch_eq setStatusMessage_def)
next
  case (analyst s1 t s2 s3 s4 s5 e s6)
  then show ?thesis
    using invoke_client [OF analyst(1)] scout_client [OF analyst(2)]
      invoke_client [OF analyst(4)] verification_client [OF analyst(5)]
      invoke_client [OF analyst(6)]
      analyst_client [OF analyst(7) [unfolded runMacroAnalystAgent_def]]
    by (simp add: orchestrator_catch_eq setStatusMessage_def)
next
  case (returns s1 t s2 s3 s4 s5 v s6)
  then show ?thesis
    using invoke_client [OF returns(1)] scout_client [OF returns(2)]
      invoke_client [OF returns(4)] verification_client [OF returns(5)]
      invoke_client [OF returns(6)]
      analyst_client [OF returns(7) [unfolded runMacroAnalystAgent_def]]
    by (simp add: setStatusMessage_def)
qed

lemma handleRunAnalysis_result:
  "result (client (handleRunAnalysis api c s)) =
     (case fst (runAnalysisOrchestrator api setStatusMessage
                  (s\<lparr>client := handleRunAnalysis_begin c (client s)\<rparr>)) of
        Inr v \<Rightarrow> if truthy v then Some v else None
      | Inl e \<Rightarrow> None)"
proof -
  let ?s1 = "s\<lparr>client := handleRunAnalysis_begin c (client s)\<rparr>"
  have "result (client (snd (runAnalysisOrchestrator api setStatusMessage ?s1))) = None"
    by (simp add: orchestrator_keeps_result handleRunAnalysis_begin_def)
  then show ?thesis
    by (auto simp add: handleRunAnalysis_def handleRunAnalysis_settle_def
        split: prod.splits sum.splits)
qed

lemma handleRunAnalysis_not_loading: "\<not> isLoading (client (handleRunAnalysis api c s))"
  by (auto simp add: handleRunAnalysis_def handleRunAnalysis_settle_def
      split: prod.splits sum.splits)

section \<open>Parsing what was printed\<close>

subsection \<open>Decimal digits\<close>

lemma digit_cases:
  "d < 10 \<Longrightarrow> d = 0 \<or> d = 1 \<or> d = 2 \<or> d = 3 \<or> d = 4 \<or> d = 5 \<or> d = 6 \<or> d = 7 \<or> d = 8 \<or> d = (9::nat)"
  by arith

lemma digit_char_props:
  assumes "d < 10"
  shows "is_digit (digit_char d)" and "digit_val (digit_char d) = d"
    and "digit_char d = 0x30 \<longleftrightarrow> d = 0"
  using digit_cases [OF assms]
  by (auto simp add: is_digit_def digit_char_def digit_val_def)

lemma digits_all: "list_all is_digit (digits_of_nat n)"
  by (induction n rule: digits_of_nat.induct)
     (subst digits_of_nat.simps, simp add: digit_char_props)

lemma digits_nonempty: "digits_of_nat n \<noteq> []"
  by (subst digits_of_nat.simps) simp

lemma digits_Cons:
  "\<exists>c cs. digits_of_nat n = c # cs \<and> is_digit c \<and> (\<forall>x\<in>set cs. is_digit x)"
  using digits_all [of n] digits_nonempty [of n]
  by (cases "digits_of_nat n") (simp_all add: list_all_iff)

lemma nat_of_digits_append:
  "nat_of_digits a (xs @ ys) = nat_of_digits (nat_of_digits a xs) ys"
  by (induction xs arbitrary: a) simp_all

lemma nat_of_digits_of_nat:
  "nat_of_digits a (digits_of_nat n) = a * 10 ^ length (digits_of_nat n) + n"
proof (induction n arbitrary: a rule: digits_of_nat.induct)
  case (1 n)
  show ?case
  proof (cases "n < 10")
    case True
    then show ?thesis
      by (subst (1 2) digits_of_nat.simps) (simp add: digit_char_props)
  next
    case False
    then show ?thesis
      using "1.IH" [of a]
      by (subst (1 2) digits_of_nat.simps) (simp add: nat_of_digits_append digit_char_props)
  qed
qed

lemma hd_digits: "0 < n \<Longrightarrow> hd (digits_of_nat n) \<noteq> 0x30"
proof (induction n rule: digits_of_nat.induct)
  case (1 n)
  show ?case
  proof (cases "n < 10")
    case True
    with "1.prems" show ?thesis
      by (subst digits_of_nat.simps) (simp add: digit_char_props)
  next
    case False
    then have "0 < n div 10" by simp
    with "1.IH" False show ?thesis
      by (subst digits_of_nat.simps) (simp add: digits_nonempty)
  qed
qed

lemma length_digits: "1 < length (digits_of_nat n) \<Longrightarrow> 0 < n"
  by (subst (asm) digits_of_nat.simps) (auto split: if_splits)

lemma takeWhile_digits: "takeWhile is_digit (digits_of_nat n) = digits_of_nat n"
  using digits_all [of n] by (simp add: list_all_iff takeWhile_eq_all_conv)

lemma dropWhile_digits: "dropWhile is_digit (digits_of_nat n) = []"
  using digits_all [of n] by (simp add: list_all_iff)

lemma number_literal_digits:
  "number_literal (digits_of_nat n) = Some (int n, 0)"
proof -
  have "hd (digits_of_nat n) \<noteq> 0x2D"
    using digits_all [of n] digits_nonempty [of n]
    by (cases "digits_of_nat n") (auto simp: is_digit_def)
  moreover have "\<not> (1 < length (digits_of_nat n) \<and> hd (digits_of_nat n) = 0x30)"
    using hd_digits length_digits by blast
  ultimately show ?thesis
    using digits_all [of n, unfolded list_all_iff]
    by (simp add: number_literal_def Let_def takeWhile_digits dropWhile_digits digits_nonempty
        nat_of_digits_of_nat decimal_def)
qed

lemma number_literal_minus_digits:
  "number_literal (0x2D # digits_of_nat n) = Some (- int n, 0)"
proof -
  have "\<not> (1 < length (digits_of_nat n) \<and> hd (digits_of_nat n) = 0x30)"
    using hd_digits length_digits by blast
  then show ?thesis
    using digits_all [of n, unfolded list_all_iff]
    by (simp add: number_literal_def Let_def takeWhile_digits dropWhile_digits digits_nonempty
        nat_of_digits_of_nat decimal_def)
qed

lemma number_literal_string: "number_literal (number_string m 0) = Some (m, 0)"
  by (cases "m < 0")
     (simp_all add: number_string_def Let_def number_literal_digits number_literal_minus_digits)

subsection \<open>Hexadecimal escapes\<close>

lemma hex_cases:
  "d < 16 \<Longrightarrow> d = 0 \<or> d = 1 \<or> d = 2 \<or> d = 3 \<or> d = 4 \<or> d = 5 \<or> d = 6 \<or> d = 7 \<or> d = 8
     \<or> d = 9 \<or> d = 10 \<or> d = 11 \<or> d = 12 \<or> d = 13 \<or> d = 14 \<or> d = (15::nat)"
  by arith

lemma hex_val_char:
  assumes "d < 16"
  shows "hex_val (hex_char d) = Some d"
  using hex_cases [OF assms] by (elim disjE; simp add: hex_val_def hex_char_def)

lemma hex_digits_value:
  "((n div 4096 * 16 + n div 256 mod 16) * 16 + n div 16 mod 16) * 16 + n mod 16 = (n::nat)"
proof -
  have f1: "n div 16 * 16 + n mod 16 = n" by simp
  have "n div 16 div 16 * 16 + n div 16 mod 16 = n div 16" by simp
  then have f2: "n div 256 * 16 + n div 16 mod 16 = n div 16"
    by (simp add: div_mult2_eq [symmetric])
  have "n div 256 div 16 * 16 + n div 256 mod 16 = n div 256" by simp
  then have f3: "n div 4096 * 16 + n div 256 mod 16 = n div 256"
    by (simp add: div_mult2_eq [symmetric])
  show ?thesis by (simp only: f3 f2 f1)
qed

lemma unhex4_hex4: "unhex4 (hex4 c) = Some c"
proof -
  define n where "n = unat c"
  have "n < 65536" using unsigned_less [of c, where ?'a = nat] by (simp add: n_def)
  then have a: "n div 4096 < 16" by simp
  have "map hex_val (hex4 c)
      = [Some (n div 4096), Some (n div 256 mod 16), Some (n div 16 mod 16), Some (n mod 16)]"
    using a by (simp add: hex4_def n_def [symmetric] hex_val_char)
  then have "unhex4 (hex4 c)
      = Some (of_nat (((n div 4096 * 16 + n div 256 mod 16) * 16 + n div 16 mod 16) * 16 + n mod 16))"
    by (simp add: unhex4_def)
  then show ?thesis
    by (simp only: hex_digits_value) (simp add: n_def)
qed

lemma length_hex4: "length (hex4 c) = 4"
  by (simp add: hex4_def Let_def)

subsection \<open>The lexer on printed text\<close>

lemma emit_all_simps [simp]:
  "emit_all [] r = r"
  "emit t (emit_all ts r) = emit_all (t # ts) r"
  "emit_all xs (emit_all ys r) = emit_all (xs @ ys) r"
  "emit t r = emit_all [t] r"
  by (cases r; simp add: emit_all_def emit_def)+

lemma delimited_simps [simp]:
  "delimited []" "delimited (0x2C # xs)" "delimited (0x0A # xs)" "delimited (newline_indent n @ xs)"
  by (simp_all add: delimited_def punct_def is_json_ws_def newline_indent_def)

lemma punct_not_ws: "punct c = Some p \<Longrightarrow> \<not> is_json_ws c"
  by (auto simp add: punct_def is_json_ws_def split: if_splits)

lemma lex_ws: "is_json_ws c \<Longrightarrow> lex (c # cs) = lex cs"
  by simp

lemma lex_punct: "punct c = Some p \<Longrightarrow> lex (c # cs) = emit_all [p] (lex cs)"
  using punct_not_ws [of c p] by simp

lemma lex_newline_indent: "lex (newline_indent n @ xs) = lex xs"
proof -
  have "lex (replicate n 0x20 @ xs) = lex xs"
    by (induction n) (simp_all add: is_json_ws_def)
  then show ?thesis by (simp add: newline_indent_def is_json_ws_def)
qed

lemma number_char_not_delimiter:
  "is_number_char c \<Longrightarrow> \<not> is_json_ws c \<and> punct c = None \<and> c \<noteq> 0x22"
  by (auto simp add: is_number_char_def is_digit_def is_json_ws_def punct_def)

lemma ws_not_number_char: "is_json_ws c \<Longrightarrow> \<not> is_number_char c"
  using number_char_not_delimiter by blast

lemma punct_not_number_char: "punct c = Some p \<Longrightarrow> \<not> is_number_char c"
  using number_char_not_delimiter by fastforce

lemma lex_number_chars:
  "\<forall>c\<in>set xs. is_number_char c \<Longrightarrow> lex_number acc (xs @ rest) = lex_number (rev xs @ acc) rest"
  by (induction xs arbitrary: acc) simp_all

lemma lex_number_end:
  assumes "delimited rest" and "number_token (rev acc) = Some t"
  shows "lex_number acc rest = emit_all [t] (lex rest)"
proof (cases rest)
  case Nil
  with assms show ?thesis by (simp add: emit_all_def)
next
  case (Cons c cs)
  with assms(1) consider "is_json_ws c" | p where "punct c = Some p"
    by (auto simp add: delimited_def)
  then show ?thesis
  proof cases
    case 1
    with assms(2) Cons show ?thesis by (simp add: ws_not_number_char)
  next
    case 2
    with assms(2) Cons show ?thesis
      by (simp add: punct_not_number_char punct_not_ws)
  qed
qed

lemma number_string_chars:
  "\<exists>c cs. number_string m 0 = c # cs \<and> (c = 0x2D \<or> is_digit c)
      \<and> (\<forall>x\<in>set cs. is_number_char x)"
proof (cases "m < 0")
  case True
  then have "number_string m 0 = 0x2D # digits_of_nat (nat \<bar>m\<bar>)"
    by (simp add: number_string_def Let_def)
  then show ?thesis
    using digits_all [of "nat \<bar>m\<bar>"] by (simp add: list_all_iff is_number_char_def)
next
  case False
  then have "number_string m 0 = digits_of_nat (nat \<bar>m\<bar>)"
    by (simp add: number_string_def Let_def)
  then show ?thesis
    using digits_Cons [of "nat \<bar>m\<bar>"] by (auto simp add: is_number_char_def)
qed

lemma lex_number_string:
  assumes "delimited rest"
  shows "lex (number_string m 0 @ rest) = emit_all [TNumber m 0] (lex rest)"
proof -
  obtain c cs where cs: "number_string m 0 = c # cs" "c = 0x2D \<or> is_digit c"
    "\<forall>x\<in>set cs. is_number_char x"
    using number_string_chars by blast
  have nc: "is_number_char c" using cs(2) by (auto simp: is_number_char_def)
  have tok: "number_token (rev (rev cs @ [c])) = Some (TNumber m 0)"
    using number_literal_string [of m] by (simp add: number_token_def cs(1))
  have "lex (number_string m 0 @ rest) = lex_number [c] (cs @ rest)"
    using number_char_not_delimiter [OF nc] cs(2) by (simp add: cs(1))
  also have "\<dots> = lex_number (rev cs @ [c]) rest"
    using cs(3) by (rule lex_number_chars)
  also have "\<dots> = emit_all [TNumber m 0] (lex rest)"
    using assms tok by (rule lex_number_end)
  finally show ?thesis .
qed

lemma surrogate_literal:
  assumes "is_high_surrogate c \<or> is_low_surrogate c"
  shows "c \<noteq> 0x22" and "c \<noteq> 0x5C" and "\<not> c < 0x20"
  using assms
  by (auto simp add: is_high_surrogate_def is_low_surrogate_def word_le_nat_alt word_less_nat_alt)

lemma lex_string_unit: "lex_string acc (quote_unit c @ xs) = lex_string (c # acc) xs"
proof -
  have u: "lex_string acc (0x5C # 0x75 # hex4 c @ xs) = lex_string (c # acc) xs"
    by (simp add: length_hex4 unhex4_hex4)
  consider "c = 0x08" | "c = 0x09" | "c = 0x0A" | "c = 0x0C" | "c = 0x0D" | "c = 0x22"
    | "c = 0x5C"
    | (esc) "c \<noteq> 0x08" "c \<noteq> 0x09" "c \<noteq> 0x0A" "c \<noteq> 0x0C" "c \<noteq> 0x0D" "c \<noteq> 0x22" "c \<noteq> 0x5C"
        "c < 0x20 \<or> is_high_surrogate c \<or> is_low_surrogate c"
    | (lit) "c \<noteq> 0x08" "c \<noteq> 0x09" "c \<noteq> 0x0A" "c \<noteq> 0x0C" "c \<noteq> 0x0D" "c \<noteq> 0x22" "c \<noteq> 0x5C"
        "\<not> (c < 0x20 \<or> is_high_surrogate c \<or> is_low_surrogate c)"
    by blast
  then show ?thesis
  proof cases
    case esc
    have "quote_unit c = 0x5C # 0x75 # hex4 c"
      using esc by (simp add: quote_unit_def)
    then show ?thesis using u by simp
  next
    case lit
    have "quote_unit c = [c]"
      using lit by (simp add: quote_unit_def)
    then show ?thesis using lit by simp
  qed (simp_all add: quote_unit_def unescape_def)
qed

lemma lex_string_body:
  "lex_string acc (quote_body s @ 0x22 # rest) = emit_all [TString (rev acc @ s)] (lex rest)"
proof (induction s arbitrary: acc rule: quote_body.induct)
  case 1
  show ?case by simp
next
  case (2 c)
  have "lex_string acc (quote_body [c] @ 0x22 # rest) = lex_string (c # acc) (0x22 # rest)"
    by (simp only: quote_body.simps lex_string_unit)
  then show ?case by simp
next
  case (3 c d cs)
  show ?case
  proof (cases "is_high_surrogate c \<and> is_low_surrogate d")
    case True
    then have "quote_body (c # d # cs) = c # d # quote_body cs" by simp
    then have "lex_string acc (quote_body (c # d # cs) @ 0x22 # rest)
        = lex_string (d # c # acc) (quote_body cs @ 0x22 # rest)"
      using True surrogate_literal [of c] surrogate_literal [of d] by simp
    then show ?thesis
      using "3.IH"(1) [OF True, of "d # c # acc"] by simp
  next
    case False
    then have "quote_body (c # d # cs) = quote_unit c @ quote_body (d # cs)" by auto
    then have "lex_string acc (quote_body (c # d # cs) @ 0x22 # rest)
        = lex_string (c # acc) (quote_body (d # cs) @ 0x22 # rest)"
      by (simp only: append_assoc lex_string_unit)
    then show ?thesis
      using "3.IH"(2) [OF False, of "c # acc"] by simp
  qed
qed

lemma lex_quoted: "lex (QuoteJSONString s @ rest) = emit_all [TString s] (lex rest)"
  using lex_string_body [of "[]" s rest]
  by (simp add: QuoteJSONString_def is_json_ws_def punct_def)

lemma lex_join:
  assumes "\<And>x rest. x \<in> set xs \<Longrightarrow> delimited rest \<Longrightarrow> lex (f x @ rest) = emit_all (g x) (lex rest)"
    and "xs \<noteq> []" and "delimited tail"
  shows "lex (join (0x2C # newline_indent n) (map f xs) @ tail)
           = emit_all (join [Comma] (map g xs)) (lex tail)"
  using assms
proof (induction xs rule: induct_list012)
  case 1
  then show ?case by simp
next
  case (2 x)
  then show ?case by simp
next
  case (3 x y ys)
  have "lex (join (0x2C # newline_indent n) (map f (x # y # ys)) @ tail)
      = lex (f x @ 0x2C # newline_indent n @ join (0x2C # newline_indent n) (map f (y # ys)) @ tail)"
    by simp
  also have "\<dots> = emit_all (g x)
      (lex (0x2C # newline_indent n @ join (0x2C # newline_indent n) (map f (y # ys)) @ tail))"
    by (rule "3.prems"(1)) simp_all
  also have "lex (0x2C # newline_indent n @ join (0x2C # newline_indent n) (map f (y # ys)) @ tail)
      = emit_all [Comma] (lex (join (0x2C # newline_indent n) (map f (y # ys)) @ tail))"
    by (simp add: lex_punct [where p = Comma] punct_def lex_newline_indent
        del: lex.simps)
  also have "lex (join (0x2C # newline_indent n) (map f (y # ys)) @ tail)
      = emit_all (join [Comma] (map g (y # ys))) (lex tail)"
    using "3.IH"(2) "3.prems" by simp
  finally show ?case by simp
qed

lemma lex_serialize:
  "plain v \<Longrightarrow> delimited rest \<Longrightarrow>
   lex (SerializeJSONProperty gap ind v @ rest) = emit_all (toks v) (lex rest)"
proof (induction v arbitrary: ind rest)
  case JNull
  show ?case by (simp add: str_def is_json_ws_def punct_def is_digit_def)
next
  case (JBool b)
  show ?case by (simp add: str_def is_json_ws_def punct_def is_digit_def)
next
  case (JNumber m d)
  then show ?case by (simp add: lex_number_string)
next
  case (JString s)
  show ?case by (simp add: lex_quoted)
next
  case (JArray es)
  show ?case
  proof (cases "es = []")
    case True
    then show ?thesis by (simp add: str_def is_json_ws_def punct_def)
  next
    case False
    have elems: "lex (SerializeJSONProperty gap (ind + gap) x @ r)
        = emit_all (toks x) (lex r)" if "x \<in> set es" "delimited r" for x r
      using JArray.IH [OF that(1) _ that(2)] JArray.prems(1) that(1)
      by (simp add: list_all_iff)
    have "lex (SerializeJSONProperty gap ind (JArray es) @ rest)
        = emit_all [LBracket]
            (lex (join (0x2C # newline_indent (ind + gap))
                    (map (SerializeJSONProperty gap (ind + gap)) es)
                  @ newline_indent ind @ 0x5D # rest))"
      using False
      by (simp add: lex_punct [where p = LBracket] punct_def lex_newline_indent del: lex.simps)
    also have "lex (join (0x2C # newline_indent (ind + gap))
                    (map (SerializeJSONProperty gap (ind + gap)) es)
                  @ newline_indent ind @ 0x5D # rest)
        = emit_all (join [Comma] (map toks es)) (lex (newline_indent ind @ 0x5D # rest))"
      using elems False by (intro lex_join) simp_all
    also have "lex (newline_indent ind @ 0x5D # rest) = emit_all [RBracket] (lex rest)"
      by (simp add: lex_newline_indent lex_punct [where p = RBracket] punct_def del: lex.simps)
    finally show ?thesis by simp
  qed
next
  case (JObject ms)
  show ?case
  proof (cases "ms = []")
    case True
    then show ?thesis by (simp add: str_def is_json_ws_def punct_def)
  next
    case False
    let ?f = "\<lambda>(k, v). QuoteJSONString k @ 0x3A # 0x20 # SerializeJSONProperty gap (ind + gap) v"
    let ?g = "\<lambda>(k, v). TString k # Colon # toks v"
    have member: "lex (?f x @ r) = emit_all (?g x) (lex r)" if "x \<in> set ms" "delimited r" for x r
    proof -
      obtain k v where x: "x = (k, v)" by (cases x)
      have "plain v" using JObject.prems(1) that(1) x by (auto simp add: list_all_iff)
      then have "lex (SerializeJSONProperty gap (ind + gap) v @ r) = emit_all (toks v) (lex r)"
        using JObject.IH [of x v] that x by simp
      then show ?thesis
        by (simp add: x lex_quoted lex_punct [where p = Colon] punct_def lex_ws is_json_ws_def
            del: lex.simps)
    qed
    have "lex (SerializeJSONProperty gap ind (JObject ms) @ rest)
        = emit_all [LBrace]
            (lex (join (0x2C # newline_indent (ind + gap)) (map ?f ms)
                  @ newline_indent ind @ 0x7D # rest))"
      using False
      by (simp add: lex_punct [where p = LBrace] punct_def lex_newline_indent del: lex.simps)
    also have "lex (join (0x2C # newline_indent (ind + gap)) (map ?f ms)
                  @ newline_indent ind @ 0x7D # rest)
        = emit_all (join [Comma] (map ?g ms)) (lex (newline_indent ind @ 0x7D # rest))"
      using member False by (intro lex_join) simp_all
    also have "lex (newline_indent ind @ 0x7D # rest) = emit_all [RBrace] (lex rest)"
      by (simp add: lex_newline_indent lex_punct [where p = RBrace] punct_def del: lex.simps)
    finally show ?thesis by simp
  qed
qed

subsection \<open>The parser on the tokens of a value\<close>

lemma prun_append:
  "prun (xs @ ys) s = (case prun xs s of None \<Rightarrow> None | Some s' \<Rightarrow> prun ys s')"
  by (induction xs arbitrary: s) (simp_all split: option.splits)

lemma join_Cons: "join sep (x # xs) = x @ concat (map ((@) sep) xs)"
  by (induction xs arbitrary: x) simp_all

lemma toks_Cons: "\<exists>t ts. toks v = t # ts \<and> t \<noteq> RBracket"
  by (cases v) simp_all

lemma CreateDataProperty_new:
  "k \<notin> fst ` set ms \<Longrightarrow> \<not> is_array_index k \<Longrightarrow> CreateDataProperty k v ms = ms @ [(k, v)]"
  by (simp add: CreateDataProperty_def)

lemma prun_elements:
  assumes "\<And>e stk ts. e \<in> set es \<Longrightarrow> prun (toks e @ ts) (SValue stk) = prun ts (deliver e stk)"
    and "es \<noteq> []"
  shows "prun (join [Comma] (map toks es) @ RBracket # ts) (SValue (FArr acc # stk))
           = prun ts (deliver (JArray (acc @ es)) stk)"
  using assms
proof (induction es arbitrary: acc rule: induct_list012)
  case 1
  then show ?case by simp
next
  case (2 e)
  then show ?case by simp
next
  case (3 e e' es)
  have "prun (join [Comma] (map toks (e # e' # es)) @ RBracket # ts) (SValue (FArr acc # stk))
      = prun (toks e @ Comma # join [Comma] (map toks (e' # es)) @ RBracket # ts)
          (SValue (FArr acc # stk))"
    by simp
  also have "\<dots> = prun (join [Comma] (map toks (e' # es)) @ RBracket # ts)
      (SValue (FArr (acc @ [e]) # stk))"
    by (subst "3.prems"(1)) simp_all
  also have "\<dots> = prun ts (deliver (JArray ((acc @ [e]) @ e' # es)) stk)"
    using "3.prems" by (intro "3.IH"(2)) simp_all
  finally show ?case by simp
qed

lemma prun_members:
  assumes "\<And>k v stk ts. (k, v) \<in> set ms \<Longrightarrow>
             prun (toks v @ ts) (SValue stk) = prun ts (deliver v stk)"
    and "ms \<noteq> []" and "distinct (map fst (acc @ ms))"
    and "\<forall>(k, v)\<in>set ms. \<not> is_array_index k"
  shows "prun (join [Comma] (map (\<lambda>(k, v). TString k # Colon # toks v) ms) @ RBrace # ts)
           (SKey acc stk)
           = prun ts (deliver (JObject (acc @ ms)) stk)"
  using assms
proof (induction ms arbitrary: acc rule: induct_list012)
  case 1
  then show ?case by simp
next
  case (2 m)
  obtain k v where m: "m = (k, v)" by (cases m)
  have new: "CreateDataProperty k v acc = acc @ [(k, v)]"
    using "2.prems"(3,4) by (intro CreateDataProperty_new) (auto simp add: m)
  show ?case
    using "2.prems"(1) [of k v] by (simp add: m new)
next
  case (3 m m' ms)
  obtain k v where m: "m = (k, v)" by (cases m)
  have new: "CreateDataProperty k v acc = acc @ [(k, v)]"
    using "3.prems"(3,4) by (intro CreateDataProperty_new) (auto simp add: m)
  let ?g = "\<lambda>(k, v). TString k # Colon # toks v"
  have "prun (join [Comma] (map ?g (m # m' # ms)) @ RBrace # ts) (SKey acc stk)
      = prun (toks v @ Comma # join [Comma] (map ?g (m' # ms)) @ RBrace # ts)
          (SValue (FObj acc k # stk))"
    by (simp add: m)
  also have "\<dots> = prun (join [Comma] (map ?g (m' # ms)) @ RBrace # ts)
      (SKey (acc @ [(k, v)]) stk)"
    using "3.prems"(1) [of k v] by (simp add: m new)
  also have "\<dots> = prun ts (deliver (JObject ((acc @ [(k, v)]) @ m' # ms)) stk)"
    using "3.prems" by (intro "3.IH"(2)) (auto simp add: m)
  finally show ?case by (simp add: m)
qed

lemma prun_toks:
  "plain v \<Longrightarrow> prun (toks v @ ts) (SValue stk) = prun ts (deliver v stk)"
proof (induction v arbitrary: ts stk)
  case (JArray es)
  show ?case
  proof (cases es)
    case Nil
    then show ?thesis by simp
  next
    case (Cons e es')
    obtain t tl where t: "toks e = t # tl" "t \<noteq> RBracket"
      using toks_Cons by blast
    have elems: "prun (toks x @ ts) (SValue stk) = prun ts (deliver x stk)"
      if "x \<in> set es" for x ts stk
      using JArray.IH [OF that] JArray.prems that by (simp add: list_all_iff)
    have "prun (toks (JArray es) @ ts) (SValue stk)
        = prun (join [Comma] (map toks es) @ RBracket # ts) (SArrStart stk)"
      by simp
    also have "\<dots> = prun (join [Comma] (map toks es) @ RBracket # ts) (SValue (FArr [] # stk))"
      using t by (simp add: Cons join_Cons)
    also have "\<dots> = prun ts (deliver (JArray ([] @ es)) stk)"
      using elems Cons by (intro prun_elements) simp_all
    finally show ?thesis by simp
  qed
next
  case (JObject ms)
  show ?case
  proof (cases ms)
    case Nil
    then show ?thesis by simp
  next
    case (Cons m ms')
    obtain k v where m: "m = (k, v)" by (cases m)
    let ?g = "\<lambda>(k, v). TString k # Colon # toks v"
    have members: "prun (toks v @ ts) (SValue stk) = prun ts (deliver v stk)"
      if "(k, v) \<in> set ms" for k v ts stk
      using JObject.IH [of "(k, v)" v] JObject.prems that by (auto simp add: list_all_iff)
    have "prun (toks (JObject ms) @ ts) (SValue stk)
        = prun (join [Comma] (map ?g ms) @ RBrace # ts) (SObjStart stk)"
      by simp
    also have "\<dots> = prun (join [Comma] (map ?g ms) @ RBrace # ts) (SKey [] stk)"
      by (simp add: Cons m join_Cons)
    also have "\<dots> = prun ts (deliver (JObject ([] @ ms)) stk)"
      using members Cons JObject.prems
      by (intro prun_members) (auto simp add: list_all_iff)
    finally show ?thesis by simp
  qed
qed simp_all
lemma parse_stringify: "plain v \<Longrightarrow> JSON_parse (JSON_stringify v gap) = Some v"
  using lex_serialize [of v "[]" gap 0] prun_toks [of v "[]" "[]"]
  by (simp add: JSON_parse_def JSON_stringify_def emit_all_def)

subsection \<open>Well-formed results\<close>

lemma is_string_plain: "is_string v \<Longrightarrow> plain v"
  by (cases v) simp_all

lemma is_score_plain: "is_score v \<Longrightarrow> plain v"
  by (cases v) simp_all

lemma is_string_array_plain: "is_string_array v \<Longrightarrow> plain v"
  by (cases v) (auto simp add: list_all_iff is_string_plain)

lemma item_field_plain:
  assumes "item_field_ok kv"
  shows "\<not> is_array_index (fst kv)" and "plain (snd kv)"
proof -
  have "\<not> is_array_index (str ''news_summary'')" "\<not> is_array_index (str ''importance_score'')"
    "\<not> is_array_index (str ''identified_macro_factors'')"
    "\<not> is_array_index (str ''impact_analysis'')"
    by (simp_all add: is_array_index_def str_def is_digit_def)
  with assms show "\<not> is_array_index (fst kv)"
    by (auto simp add: item_field_ok_def split: if_splits)
  from assms show "plain (snd kv)"
    by (auto simp add: item_field_ok_def is_string_plain is_score_plain is_string_array_plain
        split: if_splits)
qed

lemma is_MacroAnalysisItem_plain:
  assumes "is_MacroAnalysisItem v"
  shows "plain v"
proof (cases v)
  case (JObject ms)
  have "\<not> is_array_index k \<and> plain x" if "(k, x) \<in> set ms" for k x
    using assms that item_field_plain [of "(k, x)"] by (auto simp add: JObject list_all_iff)
  then show ?thesis
    using assms by (auto simp add: JObject list_all_iff)
qed (use assms in simp_all)

lemma is_MacroAnalysisResult_plain:
  assumes "is_MacroAnalysisResult v"
  shows "plain v"
proof -
  obtain items where items: "macro_analysis_items v = Some items"
    "list_all is_MacroAnalysisItem items"
    using assms by (auto simp add: is_MacroAnalysisResult_def split: option.splits)
  then have v: "v = JObject [(str ''macro_analysis'', JArray items)]"
    by (induction v rule: macro_analysis_items.induct) (auto split: if_splits)
  have "\<not> is_array_index (str ''macro_analysis'')"
    by (simp add: is_array_index_def str_def is_digit_def)
  then show ?thesis
    using items(2) by (simp add: v list_all_iff is_MacroAnalysisItem_plain)
qed

lemma is_MacroAnalysisResult_truthy: "is_MacroAnalysisResult v \<Longrightarrow> truthy v"
  by (cases v) (auto simp add: is_MacroAnalysisResult_def)

section \<open>The sample runs evaluated\<close>

lemmas json_eval = str_def punct_def is_json_ws_def is_digit_def is_number_char_def emit_def
  emit_all_def
  number_token_def unescape_def JSON_parse_def CreateDataProperty_def is_array_index_def

lemma trim_sample_news: "trim sample_news = sample_news"
  by (simp add: sample_news_def trim_def str_def isWhiteSpace_def)

lemma sample_news_nonempty: "sample_news \<noteq> []"
  by (simp add: sample_news_def str_def)

lemma trim_sample_analysis: "trim sample_analysis = sample_analysis"
  by (simp add: sample_analysis_def trim_def str_def isWhiteSpace_def)

lemma sample_analysis_nonempty: "sample_analysis \<noteq> []"
  by (simp add: sample_analysis_def str_def)

lemma parse_sample_analysis: "JSON_parse sample_analysis = Some sample_result"
  by (simp add: json_eval sample_analysis_def sample_result_def)
lemma parse_truncated_analysis: "JSON_parse (trim truncated_analysis) = None"
proof -
  have "trim truncated_analysis = truncated_analysis"
    by (simp add: truncated_analysis_def trim_def str_def isWhiteSpace_def)
  then show ?thesis
    by (simp add: json_eval truncated_analysis_def)
qed

lemma sample_run: "fst (runAnalysisOrchestrator sample_api setStatusMessage idle) = Inr sample_result"
  by (subst run_eval [where t = sample_news and r = "Some sample_news"])
     (simp_all add: setStatusMessage_def idle_def sample_api_def scripted_def
       trim_sample_news sample_news_nonempty runMacroAnalystAgent_def analyst_returns
       trim_sample_analysis sample_analysis_nonempty parse_sample_analysis try_catch_def)

lemma sample_run_2:
  "fst (runAnalysisOrchestrator_2 sample_api_2 setStatusMessage idle) = Inr sample_result"
  by (subst run_2_eval [where t = sample_news])
     (simp_all add: setStatusMessage_def idle_def sample_api_2_def scripted_def
       trim_sample_news sample_news_nonempty runMacroAnalystAgent_2_def analyst_returns
       trim_sample_analysis sample_analysis_nonempty parse_sample_analysis try_catch_def)

lemma sample_result_ok: "is_MacroAnalysisResult sample_result"
  by (simp add: is_MacroAnalysisResult_def sample_result_def item_field_ok_def str_def)

section \<open>The component over time\<close>

lemma ui_inv_initial: "ui_inv clicked initial_ui"
  by (simp add: ui_inv_def initial_ui_def initial_app_def)

lemma ui_inv_step:
  assumes "ui_inv clicked x" and "paced clicked (ev # evs)"
  shows "\<exists>clicked'. ui_inv clicked' (ui_step x ev) \<and> paced clicked' evs"
proof (cases ev)
  case Mount
  have "ui_inv clicked (ui_step x ev)"
    using assms(1) Mount
    by (auto simp add: ui_inv_def initial_ui_def initial_app_def start_run_def
        handleRunAnalysis_begin_def)
  then show ?thesis using assms(2) Mount by auto
next
  case Render
  have "ui_inv False (ui_step x ev)"
    using assms(1) Render by (auto simp add: ui_inv_def initial_ui_def)
  then show ?thesis using assms(2) Render by auto
next
  case Click
  have "ui_inv True (ui_step x ev)"
    using assms Click
    by (auto simp add: ui_inv_def App_def start_run_def handleRunAnalysis_begin_def
        initial_ui_def initial_app_def)
  then show ?thesis using assms(2) Click by auto
next
  case (Status m)
  have "ui_inv clicked (ui_step x ev)"
    using assms(1) Status by (auto simp add: ui_inv_def setStatusMessage_def)
  then show ?thesis using assms(2) Status by auto
next
  case (Settle r)
  have "ui_inv clicked (ui_step x ev)"
    using assms(1) Settle
    by (auto simp add: ui_inv_def handleRunAnalysis_settle_def split: sum.splits if_splits)
  then show ?thesis using assms(2) Settle by auto
qed

lemma ui_inv_foldl:
  "ui_inv clicked x \<Longrightarrow> paced clicked evs \<Longrightarrow> \<exists>clicked'. ui_inv clicked' (foldl ui_step x evs)"
proof (induction evs arbitrary: clicked x)
  case Nil
  then show ?case by auto
next
  case (Cons ev evs)
  obtain clicked' where "ui_inv clicked' (ui_step x ev)" and "paced clicked' evs"
    using ui_inv_step [OF Cons.prems] by auto
  then show ?case using Cons.IH by simp
qed

lemma ui_inv_run: "paced False evs \<Longrightarrow> \<exists>clicked. ui_inv clicked (ui_run evs)"
  unfolding ui_run_def by (rule ui_inv_foldl [OF ui_inv_initial])

lemmas ui_eval = ui_run_def initial_ui_def initial_app_def start_run_def
  handleRunAnalysis_begin_def handleRunAnalysis_settle_def App_def

section \<open>The properties of the specification\<close>

text \<open>
  C1. When the Scout step returns an empty or white-space-only string (and the status
  callback has let it run), \<open>runAnalysisOrchestrator\<close> fails with the error whose message
  is "News Scout returned no content.", after one request to the model; the run has set
  the status once, sent the Scout request and logged the failure, so no request of the
  Macro Analyst is ever sent.
\<close>

theorem scout_no_content_aborts:
  assumes "fst (setStatus scout_status (client s)) = None"
    and "api (calls s) news_scout_request = Resolved (Some t)"
    and "trim t = []"
  shows "fst (runAnalysisOrchestrator api setStatus s)
      = Inl (Error (str ''News Scout returned no content.''))
    \<and> calls (snd (runAnalysisOrchestrator api setStatus s)) = Suc (calls s)
    \<and> new_events s (snd (runAnalysisOrchestrator api setStatus s))
        = [SetStatus scout_status, GenerateContent news_scout_request,
           ConsoleError (str ''Orchestrator failed:'')
             (Error (str ''News Scout returned no content.''))]
    \<and> (\<forall>x. GenerateContent (macro_analyst_request x)
          \<notin> set (new_events s (snd (runAnalysisOrchestrator api setStatus s))))"
proof -
  have "runAnalysisOrchestrator api setStatus s =
      (Inl (Error (str ''News Scout returned no content.'')),
       s\<lparr>calls := Suc (calls s),
         trace := trace s @
           [SetStatus scout_status, GenerateContent news_scout_request,
            ConsoleError (str ''Orchestrator failed:'')
              (Error (str ''News Scout returned no content.''))],
         client := snd (setStatus scout_status (client s))\<rparr>)"
    using assms
    by (simp add: runAnalysisOrchestrator_def try_catch_def bindE_def throwE_def invoke_ok
        scout_resolved no_content_def orchestrator_catch_eq)
  then show ?thesis
    by (simp add: new_events_def requests_distinct)
qed

text \<open>A run of the mounted component in which the Scout answers with white space only.\<close>

theorem scout_no_content_aborts_witness:
  "fst (runAnalysisOrchestrator (scripted [Resolved (Some [0x20, 0x0A, 0x3000])])
          setStatusMessage idle)
     = Inl (Error (str ''News Scout returned no content.''))
   \<and> calls (snd (runAnalysisOrchestrator (scripted [Resolved (Some [0x20, 0x0A, 0x3000])])
        setStatusMessage idle)) = 1"
  using scout_no_content_aborts [of setStatusMessage idle
      "scripted [Resolved (Some [0x20, 0x0A, 0x3000])]" "[0x20, 0x0A, 0x3000]"]
  by (simp add: idle_def scripted_def trim_def isWhiteSpace_def)

text \<open>
  C2. The \<open>catch\<close> block of the orchestrator throws an \<open>Error\<close> on with its message
  unchanged and replaces any other thrown value by the error "An unknown error occurred
  during orchestration."; it sends no request. Whichever step of a run throws (a status
  callback or an agent), the run ends in that \<open>catch\<close> block with the value the step threw
  and in the state the step left, so the remaining steps are skipped and nothing is tried
  again; what an agent throws is always an \<open>Error\<close>.
\<close>

theorem orchestrator_rethrows_first_failure:
  "orchestrator_catch (Error m) s0 =
     (Inl (Error m), s0\<lparr>trace := trace s0 @ [ConsoleError (str ''Orchestrator failed:'') (Error m)]\<rparr>)
   \<and> orchestrator_catch (NonError x) s0 =
     (Inl (Error (str ''An unknown error occurred during orchestration.'')),
      s0\<lparr>trace := trace s0 @ [ConsoleError (str ''Orchestrator failed:'') (NonError x)]\<rparr>)
   \<and> (invoke setStatus scout_status s = (Inl e, s1) \<longrightarrow>
        runAnalysisOrchestrator api setStatus s = orchestrator_catch e s1)
   \<and> (invoke setStatus scout_status s = (Inr (), s1) \<longrightarrow>
       (runNewsScoutAgent api s1 = (Inl e, s2) \<longrightarrow>
          runAnalysisOrchestrator api setStatus s = orchestrator_catch e s2 \<and> (\<exists>m. e = Error m))
       \<and> (runNewsScoutAgent api s1 = (Inr newsText, s2) \<and> \<not> no_content newsText \<longrightarrow>
           (invoke setStatus verification_status s2 = (Inl e, s3) \<longrightarrow>
              runAnalysisOrchestrator api setStatus s = orchestrator_catch e s3)
         \<and> (invoke setStatus verification_status s2 = (Inr (), s3) \<longrightarrow>
             (runVerificationAgent api (the newsText) s3 = (Inl e, s4) \<longrightarrow>
                runAnalysisOrchestrator api setStatus s = orchestrator_catch e s4 \<and> (\<exists>m. e = Error m))
           \<and> (runVerificationAgent api (the newsText) s3 = (Inr verified, s4) \<longrightarrow>
               (invoke setStatus analyst_status s4 = (Inl e, s5) \<longrightarrow>
                  runAnalysisOrchestrator api setStatus s = orchestrator_catch e s5)
             \<and> (invoke setStatus analyst_status s4 = (Inr (), s5) \<and>
                  runMacroAnalystAgent api verified s5 = (Inl e, s6) \<longrightarrow>
                  runAnalysisOrchestrator api setStatus s = orchestrator_catch e s6 \<and> (\<exists>m. e = Error m))))))"
proof -
  have scout: "\<exists>m. e = Error m" if "runNewsScoutAgent api s1 = (Inl e, s2)" for e s1 s2
    using that by (cases "api (calls s1) news_scout_request") (auto simp: scout_resolved scout_rejected)
  have verif: "\<exists>m. e = Error m" if "runVerificationAgent api t s3 = (Inl e, s4)" for t e s3 s4
    using that
    by (cases "api (calls s3) (verification_request t)")
       (auto simp: verification_resolved verification_rejected)
  have analyst: "\<exists>m. e = Error m" if "runMacroAnalystAgent api t s5 = (Inl e, s6)" for t e s5 s6
  proof (cases "analyst_thrown (api (calls s5) (macro_analyst_request t))")
    case None
    then obtain r v where "api (calls s5) (macro_analyst_request t) = Resolved (Some r)"
      "trim r \<noteq> []" "JSON_parse (trim r) = Some v"
      by (auto simp: analyst_thrown_def split: outcome.splits option.splits if_splits)
    with that show ?thesis by (simp add: runMacroAnalystAgent_def analyst_returns)
  next
    case (Some x)
    with that show ?thesis by (auto simp add: runMacroAnalystAgent_def analyst_throws)
  qed
  show ?thesis
    by (intro conjI impI; (elim conjE)?;
        simp add: orchestrator_catch_eq run_status1_throws run_scout_throws run_status2_throws
          run_verification_throws run_status3_throws run_analyst_throws scout verif analyst)
qed

text \<open>
  A run whose fact-check request is rejected with a value that is no \<open>Error\<close>, and a run
  whose status callback throws such a value.
\<close>

theorem orchestrator_rethrows_first_failure_witness:
  "fst (runAnalysisOrchestrator rejecting_api setStatusMessage idle)
     = Inl (Error (str ''Verification agent failed. It may have found fake, inaccurate, or old news.''))
   \<and> calls (snd (runAnalysisOrchestrator rejecting_api setStatusMessage idle)) = 2
   \<and> fst (runAnalysisOrchestrator sample_api failing_callback idle)
     = Inl (Error (str ''An unknown error occurred during orchestration.''))"
proof -
  define s1 where "s1 = snd (invoke setStatusMessage scout_status idle)"
  define s2 where "s2 = snd (runNewsScoutAgent rejecting_api s1)"
  define s3 where "s3 = snd (invoke setStatusMessage verification_status s2)"
  define s4 where "s4 = snd (runVerificationAgent rejecting_api sample_news s3)"
  define e where
    "e = Error (str ''Verification agent failed. It may have found fake, inaccurate, or old news.'')"
  define c1 where "c1 = snd (invoke failing_callback scout_status idle)"
  have h1: "invoke setStatusMessage scout_status idle = (Inr (), s1)"
    by (simp add: s1_def invoke_ok setStatusMessage_def)
  have h2: "runNewsScoutAgent rejecting_api s1 = (Inr (Some sample_news), s2)"
    by (simp add: s2_def s1_def invoke_ok setStatusMessage_def scout_resolved rejecting_api_def
        scripted_def idle_def)
  have h2': "\<not> no_content (Some sample_news)"
    by (simp add: no_content_def trim_sample_news sample_news_nonempty)
  have h3: "invoke setStatusMessage verification_status s2 = (Inr (), s3)"
    by (simp add: s3_def invoke_ok setStatusMessage_def)
  have c: "calls s3 = 1"
    by (simp add: s3_def s2_def s1_def invoke_ok setStatusMessage_def scout_resolved
        rejecting_api_def scripted_def idle_def)
  have h4: "runVerificationAgent rejecting_api sample_news s3 = (Inl e, s4)"
    using c by (simp add: s4_def e_def verification_rejected [where e = "NonError (str ''503'')"]
        rejecting_api_def scripted_def)
  have c4: "calls s4 = 2"
    using c by (simp add: s4_def verification_rejected [where e = "NonError (str ''503'')"]
        rejecting_api_def scripted_def)
  have g1: "invoke failing_callback scout_status idle = (Inl (NonError (str ''boom'')), c1)"
    by (simp add: c1_def invoke_throws failing_callback_def)
  show ?thesis
    using orchestrator_rethrows_first_failure [where setStatus = setStatusMessage and s = idle
        and api = rejecting_api and ?s1.0 = s1 and ?s2.0 = s2 and ?s3.0 = s3 and ?s4.0 = s4
        and newsText = "Some sample_news" and e = e and m = "str ''m''" and ?s0.0 = idle]
      orchestrator_rethrows_first_failure [where setStatus = failing_callback and s = idle
        and api = sample_api and ?s1.0 = c1 and e = "NonError (str ''boom'')"
        and m = "str ''m''" and ?s0.0 = idle and x = "str ''boom''"]
      h1 h2 h2' h3 h4 c4 g1
    by (simp add: orchestrator_catch_eq e_def)
qed

text \<open>
  C3 does not hold as the specification states it. With "no objection" read as the
  prompt defines it (the model returns the text it was given), a response that states an
  objection should make \<open>runVerificationAgent\<close> throw; here the response is an objection
  and the agent returns its input.
\<close>

theorem verification_ignores_objection:
  "scripted [Resolved (Some objection)] (calls idle) (verification_request sample_news)
      = Resolved (Some objection)
   \<and> objection \<noteq> sample_news
   \<and> fst (runVerificationAgent (scripted [Resolved (Some objection)]) sample_news idle)
      = Inr sample_news"
  by (simp add: verification_resolved scripted_def idle_def objection_def sample_news_def str_def)

text \<open>
  C3, amended. \<open>runVerificationAgent\<close> never reads the response: it returns its input
  text unchanged whenever the request resolves, whatever the response says, and it throws
  (the error "Verification agent failed. It may have found fake, inaccurate, or old
  news.") exactly when the request itself is rejected.
\<close>

theorem verification_fails_iff_call_rejects:
  "(api (calls s) (verification_request t) = Resolved r \<longrightarrow>
      fst (runVerificationAgent api t s) = Inr t)
   \<and> (api (calls s) (verification_request t) = Rejected e \<longrightarrow>
      fst (runVerificationAgent api t s)
        = Inl (Error (str ''Verification agent failed. It may have found fake, inaccurate, or old news.'')))"
  by (simp add: verification_resolved verification_rejected)

text \<open>A request that resolves without text, and a request that is rejected.\<close>

theorem verification_fails_iff_call_rejects_witness:
  "fst (runVerificationAgent (scripted [Resolved None]) sample_news idle) = Inr sample_news
   \<and> fst (runVerificationAgent (scripted [Rejected (NonError (str ''503''))]) sample_news idle)
      = Inl (Error (str ''Verification agent failed. It may have found fake, inaccurate, or old news.''))"
  using verification_fails_iff_call_rejects [of "scripted [Resolved None]" idle sample_news None]
    verification_fails_iff_call_rejects [of "scripted [Rejected (NonError (str ''503''))]" idle sample_news _
      "NonError (str ''503'')"]
  by (simp add: scripted_def idle_def)

text \<open>
  C4. The error "Macro Analyst returned an empty response." is thrown inside the \<open>try\<close>
  block of \<open>runMacroAnalystAgent\<close>, whose own \<open>catch\<close> block replaces it: for an analysis
  that is the empty string the orchestrator fails with the message "Macro Analyst agent
  failed to generate analysis. The model may have returned invalid JSON.", not with the
  message that the specification and the \<open>throw\<close> statement name.
\<close>

theorem empty_analysis_message_replaced:
  "fst (runAnalysisOrchestrator empty_analysis_api setStatusMessage idle)
     = Inl (Error analyst_failure)
   \<and> fst (runAnalysisOrchestrator empty_analysis_api setStatusMessage idle)
     \<noteq> Inl (Error (str ''Macro Analyst returned an empty response.''))"
proof -
  have "analyst_thrown (empty_analysis_api 2 (macro_analyst_request sample_news))
      = Some (Error (str ''Macro Analyst returned an empty response.''))"
    by (simp add: analyst_thrown_def empty_analysis_api_def scripted_def trim_def)
  then have "fst (runAnalysisOrchestrator empty_analysis_api setStatusMessage idle)
     = Inl (Error analyst_failure)"
    by (intro run_analyst_failure [where news = sample_news and r = "Some sample_news"])
       (simp_all add: idle_def empty_analysis_api_def scripted_def trim_sample_news
         sample_news_nonempty numeral_2_eq_2)
  then show ?thesis by (simp add: str_def)
qed

text \<open>
  C5. When the text of the analysis is no JSON text, the orchestrator throws the error
  of the Macro Analyst; \<open>handleRunAnalysis\<close> had emptied the held result before, no status
  update touches it, and the run ends with the error message held and shown in the
  alert, no result held or shown, and nothing to download.
\<close>

theorem invalid_json_shows_error:
  assumes "api (calls s) news_scout_request = Resolved (Some news)" and "trim news \<noteq> []"
    and "api (Suc (calls s)) (verification_request news) = Resolved r"
    and "api (Suc (Suc (calls s))) (macro_analyst_request news) = Resolved (Some a)"
    and "JSON_parse (trim a) = None"
  shows "fst (runAnalysisOrchestrator api setStatusMessage
               (s\<lparr>client := handleRunAnalysis_begin c (client s)\<rparr>)) = Inl (Error analyst_failure)
    \<and> result (handleRunAnalysis_begin c (client s)) = None
    \<and> (\<forall>m u. result (snd (setStatusMessage m u)) = result u)
    \<and> error (client (handleRunAnalysis api c s)) = Some (str ''An error occurred: '' @ analyst_failure)
    \<and> result (client (handleRunAnalysis api c s)) = None
    \<and> \<not> isLoading (client (handleRunAnalysis api c s))
    \<and> alert (App (client (handleRunAnalysis api c s)))
         = Some (str ''An error occurred: '' @ analyst_failure)
    \<and> result_display (App (client (handleRunAnalysis api c s))) = None
    \<and> \<not> download_button (App (client (handleRunAnalysis api c s)))
    \<and> handleDownloadJson (client (handleRunAnalysis api c s)) = None"
proof -
  let ?s1 = "s\<lparr>client := handleRunAnalysis_begin c (client s)\<rparr>"
  obtain e where e: "analyst_thrown (api (Suc (Suc (calls s))) (macro_analyst_request news)) = Some e"
    using analyst_thrown_invalid [OF assms(5)] assms(4) by auto
  have run: "fst (runAnalysisOrchestrator api setStatusMessage ?s1) = Inl (Error analyst_failure)"
    using assms(1-3) e
    by (intro run_analyst_failure [where news = news and r = r and e = e]) simp_all
  have res: "result (client (handleRunAnalysis api c s)) = None"
    using run by (simp add: handleRunAnalysis_result)
  have err: "error (client (handleRunAnalysis api c s))
      = Some (str ''An error occurred: '' @ analyst_failure)"
    and load: "\<not> isLoading (client (handleRunAnalysis api c s))"
    using run
    by (auto simp add: handleRunAnalysis_def handleRunAnalysis_settle_def split: prod.splits)
  have ne: "str ''An error occurred: '' @ analyst_failure \<noteq> []"
    by (simp add: str_def)
  show ?thesis
    using run res err load ne
    by (simp add: handleRunAnalysis_begin_def setStatusMessage_def App_def ErrorAlert_def
        shows_result_def handleDownloadJson_def)
qed

text \<open>A re-run after a successful run, in which the analysis breaks off in the middle.\<close>

theorem invalid_json_shows_error_witness:
  "JSON_parse (trim truncated_analysis) = None
   \<and> error (client (handleRunAnalysis invalid_json_api False previous_success))
       = Some (str ''An error occurred: '' @ analyst_failure)
   \<and> result_display (App (client (handleRunAnalysis invalid_json_api False previous_success)))
       = None"
  using parse_truncated_analysis
    invalid_json_shows_error [of invalid_json_api previous_success sample_news
      "Some sample_news" truncated_analysis False]
  by (simp add: invalid_json_api_def scripted_def previous_success_def trim_sample_news
      sample_news_nonempty)

text \<open>
  C6. The steps of every run (its status updates and requests, in the order of the
  trace) are an initial part of: status, Scout request, status, Verification request,
  status, Macro Analyst request; and they are all of it when the run returns a result.
  So each request comes straight after exactly one status update. The Verification
  request is sent only once the Scout request has resolved, with the text it carries,
  and the Macro Analyst request only once the Verification request has resolved. The
  same holds for the copy of the module without the Verification agent.
\<close>

theorem orchestrator_step_order:
  "(trace (snd (runAnalysisOrchestrator api setStatus s))
      = trace s @ new_events s (snd (runAnalysisOrchestrator api setStatus s))
    \<and> prefix (filter is_step (new_events s (snd (runAnalysisOrchestrator api setStatus s))))
         (plan (scout_text api s))
    \<and> (\<forall>v. fst (runAnalysisOrchestrator api setStatus s) = Inr v \<longrightarrow>
         filter is_step (new_events s (snd (runAnalysisOrchestrator api setStatus s)))
           = plan (scout_text api s))
    \<and> (GenerateContent (verification_request (scout_text api s))
          \<in> set (new_events s (snd (runAnalysisOrchestrator api setStatus s))) \<longrightarrow>
         api (calls s) news_scout_request = Resolved (Some (scout_text api s)))
    \<and> (GenerateContent (macro_analyst_request (scout_text api s))
          \<in> set (new_events s (snd (runAnalysisOrchestrator api setStatus s))) \<longrightarrow>
         (\<exists>r. api (Suc (calls s)) (verification_request (scout_text api s)) = Resolved r)))
   \<and> (trace (snd (runAnalysisOrchestrator_2 api setStatus s))
      = trace s @ new_events s (snd (runAnalysisOrchestrator_2 api setStatus s))
    \<and> prefix (filter is_step (new_events s (snd (runAnalysisOrchestrator_2 api setStatus s))))
         (plan_2 (scout_text api s))
    \<and> (\<forall>v. fst (runAnalysisOrchestrator_2 api setStatus s) = Inr v \<longrightarrow>
         filter is_step (new_events s (snd (runAnalysisOrchestrator_2 api setStatus s)))
           = plan_2 (scout_text api s))
    \<and> (GenerateContent (macro_analyst_request_2 (scout_text api s))
          \<in> set (new_events s (snd (runAnalysisOrchestrator_2 api setStatus s))) \<longrightarrow>
         api (calls s) news_scout_request = Resolved (Some (scout_text api s))))"
  using orchestrator_trace [of api setStatus s] orchestrator_2_trace [of api setStatus s]
  by blast

text \<open>The sample runs in which every step succeeds, for both copies.\<close>

theorem orchestrator_step_order_witness:
  "fst (runAnalysisOrchestrator sample_api setStatusMessage idle) = Inr sample_result
   \<and> filter is_step (new_events idle (snd (runAnalysisOrchestrator sample_api setStatusMessage idle)))
       = plan sample_news
   \<and> fst (runAnalysisOrchestrator_2 sample_api_2 setStatusMessage idle) = Inr sample_result
   \<and> filter is_step
        (new_events idle (snd (runAnalysisOrchestrator_2 sample_api_2 setStatusMessage idle)))
       = plan_2 sample_news"
proof -
  have "scout_text sample_api idle = sample_news" "scout_text sample_api_2 idle = sample_news"
    by (simp_all add: scout_text_def sample_api_def sample_api_2_def scripted_def idle_def)
  then show ?thesis
    using orchestrator_step_order [of sample_api setStatusMessage idle]
      orchestrator_step_order [of sample_api_2 setStatusMessage idle] sample_run sample_run_2
    by simp
qed

text \<open>
  C7. After a run of \<open>handleRunAnalysis\<close> whose orchestrator returned a well-formed result
  with N items, the text displayed and the content of the download are the same
  \<open>JSON.stringify(result, null, 2)\<close>, the download is named
  financial_analysis_output.json, and \<open>JSON.parse\<close> of that text is the result again, with
  its N items.
\<close>

theorem result_json_round_trip:
  assumes "fst (runAnalysisOrchestrator api setStatusMessage
                 (s\<lparr>client := handleRunAnalysis_begin c (client s)\<rparr>)) = Inr v"
    and "is_MacroAnalysisResult v" and "macro_analysis_items v = Some items"
  shows "result_display (App (client (handleRunAnalysis api c s))) = Some (JSON_stringify v 2)
    \<and> handleDownloadJson (client (handleRunAnalysis api c s))
        = Some \<lparr>filename = str ''financial_analysis_output.json'',
                 mime_type = str ''application/json'',
                 content = JSON_stringify v 2\<rparr>
    \<and> JSON_parse (JSON_stringify v 2) = Some v
    \<and> (case JSON_parse (JSON_stringify v 2) of
          None \<Rightarrow> False
        | Some v' \<Rightarrow> map_option length (macro_analysis_items v') = Some (length items))"
proof -
  have t: "truthy v" using assms(2) by (rule is_MacroAnalysisResult_truthy)
  have r: "result (client (handleRunAnalysis api c s)) = Some v"
    using assms(1) t by (simp add: handleRunAnalysis_result)
  have p: "JSON_parse (JSON_stringify v 2) = Some v"
    using assms(2) by (intro parse_stringify is_MacroAnalysisResult_plain)
  show ?thesis
    using r t p assms(3) handleRunAnalysis_not_loading [of api c s]
    by (simp add: App_def shows_result_def ResultDisplay_def handleDownloadJson_def)
qed

text \<open>The first run of the mounted component with the analysis of the example.\<close>

theorem result_json_round_trip_witness:
  "is_MacroAnalysisResult sample_result
   \<and> map_option length (macro_analysis_items sample_result) = Some 1
   \<and> result_display (App (client (handleRunAnalysis sample_api True idle)))
       = Some (JSON_stringify sample_result 2)
   \<and> map_option filename (handleDownloadJson (client (handleRunAnalysis sample_api True idle)))
       = Some (str ''financial_analysis_output.json'')
   \<and> JSON_parse (JSON_stringify sample_result 2) = Some sample_result"
proof -
  have run: "fst (runAnalysisOrchestrator sample_api setStatusMessage
      (idle\<lparr>client := handleRunAnalysis_begin True (client idle)\<rparr>)) = Inr sample_result"
    by (subst run_eval [where t = sample_news and r = "Some sample_news"])
       (simp_all add: setStatusMessage_def idle_def sample_api_def scripted_def
         trim_sample_news sample_news_nonempty runMacroAnalystAgent_def analyst_returns
         trim_sample_analysis sample_analysis_nonempty parse_sample_analysis try_catch_def)
  have items: "macro_analysis_items sample_result
      = Some [JObject [(str ''news_summary'', JString (str ''Fed raises rates'')),
                       (str ''identified_macro_factors'', JArray [JString (str ''interest rates'')]),
                       (str ''impact_analysis'', JString (str ''...''))]]"
    by (simp add: sample_result_def)
  show ?thesis
    using result_json_round_trip [OF run sample_result_ok items] sample_result_ok items
    by simp
qed

text \<open>
  C8 does not hold as the specification states it. After the first run has settled and
  the render with the enabled button is committed, a click starts a run: the component
  is loading, but the button of the last committed render is still enabled, and a second
  click before the next render starts a second call of \<open>handleRunAnalysis\<close>, so two runs
  are in flight.
\<close>

theorem two_clicks_before_render_start_two_runs:
  "isLoading (component (ui_run [Mount, Settle (Inr sample_result), Render, Click]))
   \<and> \<not> button_disabled
         (App (rendered (ui_run [Mount, Settle (Inr sample_result), Render, Click])))
   \<and> in_flight (ui_run [Mount, Settle (Inr sample_result), Render, Click]) = 1
   \<and> in_flight (ui_run [Mount, Settle (Inr sample_result), Render, Click, Click]) = 2"
  by (simp add: ui_eval)

text \<open>
  C8, amended. In every state the mounted component can reach, if the last committed
  render saw \<open>isLoading\<close> true then the trigger button is disabled and a click changes
  nothing, so it starts no run. \<open>handleRunAnalysis\<close> itself does not look for a run in
  flight; when a render is committed between any two clicks, at most one call of
  \<open>handleRunAnalysis\<close> is in flight at any time, and while one is in flight the component
  is loading and a render committed then has the button disabled.
\<close>

theorem loading_disables_trigger:
  "(isLoading (rendered (ui_run evs)) \<longrightarrow>
      button_disabled (App (rendered (ui_run evs)))
      \<and> ui_step (ui_run evs) Click = ui_run evs)
   \<and> (paced False evs \<longrightarrow>
        in_flight (ui_run evs) \<le> 1
        \<and> (0 < in_flight (ui_run evs) \<longrightarrow>
             isLoading (component (ui_run evs))
             \<and> button_disabled (App (rendered (ui_step (ui_run evs) Render)))))"
  using ui_inv_run [of evs] by (auto simp add: ui_inv_def App_def)

text \<open>
  While the first run reports its status a click on the rendered button changes nothing;
  after the run has settled, two clicks with a render between them start one run.
\<close>

theorem loading_disables_trigger_witness:
  "isLoading (rendered (ui_run [Mount, Status scout_status, Render]))
   \<and> ui_step (ui_run [Mount, Status scout_status, Render]) Click
       = ui_run [Mount, Status scout_status, Render]
   \<and> paced False [Mount, Settle (Inr sample_result), Render, Click, Render, Click]
   \<and> in_flight (ui_run [Mount, Settle (Inr sample_result), Render, Click, Render, Click]) = 1
   \<and> isLoading
        (component (ui_run [Mount, Settle (Inr sample_result), Render, Click, Render, Click]))
   \<and> button_disabled
        (App (rendered (ui_step
           (ui_run [Mount, Settle (Inr sample_result), Render, Click, Render, Click]) Render)))"
proof -
  have a: "isLoading (rendered (ui_run [Mount, Status scout_status, Render]))"
    by (simp add: ui_eval setStatusMessage_def)
  have b: "paced False [Mount, Settle (Inr sample_result), Render, Click, Render, Click]"
    by simp
  have c: "in_flight
      (ui_run [Mount, Settle (Inr sample_result), Render, Click, Render, Click]) = 1"
    by (simp add: ui_eval)
  show ?thesis
    using a b c
      loading_disables_trigger [of "[Mount, Status scout_status, Render]"]
      loading_disables_trigger
        [of "[Mount, Settle (Inr sample_result), Render, Click, Render, Click]"]
    by simp
qed




text \<open>
  C10. \<open>runMacroAnalystAgent\<close> validates nothing: whenever the trimmed text of the
  response is not empty and \<open>JSON.parse\<close> accepts it, the agent returns the parsed value,
  whatever its shape, having sent its one request.
\<close>

theorem analyst_returns_any_json:
  assumes "api (calls s) (macro_analyst_request news) = Resolved (Some t)"
    and "trim t \<noteq> []" and "JSON_parse (trim t) = Some v"
  shows "runMacroAnalystAgent api news s =
     (Inr v, s\<lparr>calls := Suc (calls s),
               trace := trace s @ [GenerateContent (macro_analyst_request news)]\<rparr>)"
  using assms by (simp add: runMacroAnalystAgent_def analyst_returns)

text \<open>
  An analysis that is an empty array, and one whose only item has none of the required
  fields: both are returned, and neither is a \<open>MacroAnalysisResult\<close>.
\<close>

theorem analyst_returns_any_json_witness:
  "fst (runMacroAnalystAgent (scripted [Resolved (Some (str '' [] ''))]) sample_news idle)
     = Inr (JArray [])
   \<and> \<not> is_MacroAnalysisResult (JArray [])
   \<and> fst (runMacroAnalystAgent (scripted [Resolved (Some (str ''{\"macro_analysis\":[{}]}''))])
          sample_news idle)
     = Inr (JObject [(str ''macro_analysis'', JArray [JObject []])])
   \<and> \<not> is_MacroAnalysisResult (JObject [(str ''macro_analysis'', JArray [JObject []])])"
proof -
  have t1: "trim (str '' [] '') = str ''[]''"
    by (simp add: trim_def str_def isWhiteSpace_def)
  have p1: "JSON_parse (str ''[]'') = Some (JArray [])"
    by (simp add: json_eval)
  have t2: "trim (str ''{\"macro_analysis\":[{}]}'') = str ''{\"macro_analysis\":[{}]}''"
    by (simp add: trim_def str_def isWhiteSpace_def)
  have p2: "JSON_parse (str ''{\"macro_analysis\":[{}]}'')
      = Some (JObject [(str ''macro_analysis'', JArray [JObject []])])"
    by (simp add: json_eval)
  have n: "str ''[]'' \<noteq> []" "str ''{\"macro_analysis\":[{}]}'' \<noteq> []"
    by (simp_all add: str_def)
  show ?thesis
    using analyst_returns_any_json [of "scripted [Resolved (Some (str '' [] ''))]" idle sample_news
        "str '' [] ''" "JArray []"]
      analyst_returns_any_json [of "scripted [Resolved (Some (str ''{\"macro_analysis\":[{}]}''))]"
        idle sample_news "str ''{\"macro_analysis\":[{}]}''"
        "JObject [(str ''macro_analysis'', JArray [JObject []])]"]
      t1 p1 t2 p2 n
    by (simp add: scripted_def idle_def is_MacroAnalysisResult_def)
qed
end
